theory Spec2Isabelle
  imports Main
begin

section \<open>Strings as the client uses them\<close>

text \<open>
  JavaScript strings are modelled as \<^typ>\<open>string\<close>.  A value that may be
  \<^verbatim>\<open>null\<close> or \<^verbatim>\<open>undefined\<close> (an absent field of a parsed JSON body, the
  argument of \<^verbatim>\<open>escapeHtml\<close>) is a \<^typ>\<open>string option\<close>, \<^const>\<open>None\<close> standing
  for both.  The only falsy strings are the absent one and the empty one.  A
  \<^typ>\<open>char\<close> is one code unit of the JavaScript string, in the range U+0000 to
  U+00FF.
\<close>

text \<open>\<^verbatim>\<open>s.startsWith(q)\<close>, the one-position test behind \<^verbatim>\<open>includes\<close>.\<close>

fun startsWith :: "string \<Rightarrow> string \<Rightarrow> bool" where
  "startsWith s [] = True"
| "startsWith [] (q # qs) = False"
| "startsWith (c # cs) (q # qs) = (c = q \<and> startsWith cs qs)"

text \<open>\<^verbatim>\<open>s.includes(q)\<close>: does \<open>q\<close> occur in \<open>s\<close> at some position.\<close>

fun js_includes :: "string \<Rightarrow> string \<Rightarrow> bool" where
  "js_includes [] q = (q = [])"
| "js_includes (c # cs) q = (startsWith (c # cs) q \<or> js_includes cs q)"

section \<open>Session store (App)\<close>

record message =
  role :: string
  content :: string
  time :: "string option"

text \<open>
  \<^verbatim>\<open>addMessage(role, content)\<close> of App: \<^verbatim>\<open>setMessages(m => [...m, {role, content, time}])\<close>.
  The clock reading \<^verbatim>\<open>new Date().toLocaleTimeString()\<close> is the parameter \<open>now\<close>.
\<close>

definition addMessage :: "string \<Rightarrow> string \<Rightarrow> string \<Rightarrow> message list \<Rightarrow> message list" where
  "addMessage r c now m = m @ [\<lparr>role = r, content = c, time = Some now\<rparr>]"

text \<open>The test of the loop in \<^verbatim>\<open>replaceLastAssistant\<close>, on one message.\<close>

definition isPending :: "message \<Rightarrow> bool" where
  "isPending x \<longleftrightarrow>
     role x = ''assistant'' \<and>
     (js_includes (content x) ''Thinking'' \<or> js_includes (content x) ''spinner''
        \<or> js_includes (content x) ''Thinking...'')"

text \<open>
  The loop \<^verbatim>\<open>for (let i = copy.length - 1; i >= 0; i--)\<close>.  The first argument is
  \<open>i + 1\<close>; \<^const>\<open>None\<close> means the loop ran out without returning.
\<close>

fun replaceLoop :: "nat \<Rightarrow> message list \<Rightarrow> string \<Rightarrow> string \<Rightarrow> message list option" where
  "replaceLoop 0 copy newContent now = None"
| "replaceLoop (Suc i) copy newContent now =
     (if isPending (copy ! i)
      then Some (copy[i := (copy ! i)\<lparr>content := newContent, time := Some now\<rparr>])
      else replaceLoop i copy newContent now)"

definition replaceLastAssistant :: "string \<Rightarrow> string \<Rightarrow> message list \<Rightarrow> message list" where
  "replaceLastAssistant newContent now m =
     (case replaceLoop (length m) m newContent now of
        Some copy \<Rightarrow> copy
      | None \<Rightarrow> m @ [\<lparr>role = ''assistant'', content = newContent, time = Some now\<rparr>])"

text \<open>One entry of the list that \<^verbatim>\<open>/ask\<close> returns and the panel shows.\<close>

record source =
  name :: "string option"
  path :: "string option"
  size_bytes :: "nat option"
  reason :: "string option"
  reason_detail :: "string option"

section \<open>Markup helpers (Chat, Sources)\<close>

text \<open>
  The replacement table of \<^verbatim>\<open>escapeHtml\<close>; \<open>CHR 0x22\<close> is the double quote and
  \<open>CHR 0x27\<close> the single quote.
\<close>

definition escapeChar :: "char \<Rightarrow> string" where
  "escapeChar c =
     (if c = CHR ''&'' then ''&amp;''
      else if c = CHR ''<'' then ''&lt;''
      else if c = CHR ''>'' then ''&gt;''
      else if c = CHR 0x22 then ''&quot;''
      else if c = CHR 0x27 then ''&#039;''
      else [c])"

text \<open>
  \<^verbatim>\<open>escapeHtml(text)\<close>: \<^verbatim>\<open>if (!text) return ''\<close>, then the global replace of the
  class \<^verbatim>\<open>[&<>"']\<close>.  Chat and Sources carry the same function.
\<close>

definition escapeHtml :: "string option \<Rightarrow> string" where
  "escapeHtml text =
     (case text of
        None \<Rightarrow> []
      | Some s \<Rightarrow> if s = [] then [] else concat (map escapeChar s))"

text \<open>
  The global replace \<^verbatim>\<open>html.replace(/<[^>]*>/g, '')\<close>: at a \<^verbatim>\<open><\<close> the match runs
  to the next \<^verbatim>\<open>>\<close>; when there is none the \<^verbatim>\<open><\<close> stays and the scan moves on.
\<close>

function stripTags :: "string \<Rightarrow> string" where
  "stripTags [] = []"
| "stripTags (c # cs) =
     (if c = CHR ''<''
      then (case dropWhile (\<lambda>d. d \<noteq> CHR ''>'') cs of
              [] \<Rightarrow> c # stripTags cs
            | g # rest \<Rightarrow> stripTags rest)
      else c # stripTags cs)"
  by pat_completeness auto
termination
proof (relation "measure length")
  show "wf (measure length)" by simp
next
  fix c :: char and cs :: string
  show "(cs, c # cs) \<in> measure length" by simp
next
  fix c :: char and cs :: string and g :: char and rest :: string
  assume "dropWhile (\<lambda>d. d \<noteq> CHR ''>'') cs = g # rest"
  then have "length (g # rest) \<le> length cs"
    by (metis length_dropWhile_le)
  then show "(rest, c # cs) \<in> measure length" by simp
next
  fix c :: char and cs :: string
  show "(cs, c # cs) \<in> measure length" by simp
qed

definition stripHtml :: "string option \<Rightarrow> string" where
  "stripHtml html =
     (case html of
        None \<Rightarrow> []
      | Some s \<Rightarrow> if s = [] then [] else stripTags s)"

text \<open>
  What one match of the first alternative \<^verbatim>\<open>```(?:text)?\\n?\<close> consumes after the
  three backticks: an optional \<^verbatim>\<open>text\<close>, then a backslash (\<open>CHR 0x5C\<close>, required),
  then an optional letter \<^verbatim>\<open>n\<close>.  When the backslash is missing the second
  alternative \<^verbatim>\<open>```\<close> matches, and nothing more is consumed.
\<close>

definition fenceTail :: "string \<Rightarrow> string" where
  "fenceTail r =
     (case (if take 4 r = ''text'' then drop 4 r else r) of
        [] \<Rightarrow> r
      | b # r2 \<Rightarrow>
          if b = CHR 0x5C
          then (case r2 of [] \<Rightarrow> r2 | n # r3 \<Rightarrow> if n = CHR ''n'' then r3 else r2)
          else r)"

text \<open>\<^verbatim>\<open>data.markdown.replace(/```(?:text)?\\n?|```/g, '')\<close>.\<close>

function cleanMarkdown :: "string \<Rightarrow> string" where
  "cleanMarkdown s =
     (if s = [] then []
      else if take 3 s = ''```'' then cleanMarkdown (fenceTail (drop 3 s))
      else hd s # cleanMarkdown (tl s))"
  by pat_completeness auto
termination
proof (relation "measure length")
  show "wf (measure length)" by simp
next
  fix s :: string
  assume ne: "s \<noteq> []" and "take 3 s = ''```''"
  have tail: "length r2 < length r" if "drop k r = b # r2" for k b and r r2 :: string
  proof -
    have "length (drop k r) \<le> length r" by simp
    with that show ?thesis by simp
  qed
  have fence: "length (fenceTail r) \<le> length r" for r
  proof (cases "take 4 r = ''text''")
    case True
    show ?thesis
    proof (cases "drop 4 r")
      case Nil
      with True show ?thesis by (simp add: fenceTail_def)
    next
      case (Cons b r2)
      then have "length r2 < length r" by (rule tail)
      with True Cons show ?thesis
        by (cases r2) (auto simp: fenceTail_def)
    qed
  next
    case False
    then show ?thesis
      by (cases r) (auto simp: fenceTail_def split: list.splits)
  qed
  have "length (fenceTail (drop 3 s)) \<le> length (drop 3 s)"
    by (rule fence)
  moreover have "length (take 3 s) = 3"
    by (simp add: \<open>take 3 s = ''```''\<close>)
  then have "3 \<le> length s" by simp
  ultimately show "(fenceTail (drop 3 s), s) \<in> measure length" by simp
next
  fix s :: string
  assume "s \<noteq> []"
  then show "(tl s, s) \<in> measure length" by (cases s) simp_all
qed

section \<open>Source panel (Sources)\<close>

text \<open>\<^verbatim>\<open>(x || '')\<close> on a field that may be absent.\<close>

definition orEmpty :: "string option \<Rightarrow> string" where
  "orEmpty x = (case x of None \<Rightarrow> [] | Some s \<Rightarrow> s)"

text \<open>
  The callback given to \<^verbatim>\<open>sources.filter\<close>, for the filter text \<open>f\<close>.  The
  built-in \<^verbatim>\<open>toLowerCase\<close> of the platform is not part of the sources; it is the
  parameter \<open>lower\<close>, a function on strings of which nothing is assumed.
\<close>

definition filterMatch :: "(string \<Rightarrow> string) \<Rightarrow> string \<Rightarrow> source \<Rightarrow> bool" where
  "filterMatch lower f s =
     (if f = [] then True
      else let q = lower f
           in js_includes (lower (orEmpty (name s))) q
              \<or> js_includes (lower (orEmpty (path s))) q
              \<or> js_includes (lower (orEmpty (reason_detail s))) q)"

text \<open>The entries the panel renders, in the order it renders them.\<close>

definition visibleSources ::
  "(string \<Rightarrow> string) \<Rightarrow> string \<Rightarrow> source list \<Rightarrow> source list" where
  "visibleSources lower f srcs = filter (filterMatch lower f) srcs"

text \<open>
  \<^verbatim>\<open>toLowerCase\<close> as it is on the strings of this model, for the worked examples.
  Of the code units up to U+00FF the letters \<^verbatim>\<open>A\<close> to \<^verbatim>\<open>Z\<close> and the letters U+00C0
  to U+00DE other than the sign U+00D7 have a lower-case form, 32 places up; on a
  string of such code units \<^verbatim>\<open>toLowerCase\<close> replaces each of them by that form and
  keeps every other code unit.
\<close>

definition toLowerUnit :: "char \<Rightarrow> char" where
  "toLowerUnit c =
     (case map_of
        (zip (''ABCDEFGHIJKLMNOPQRSTUVWXYZ'' @
          [CHR 0xC0, CHR 0xC1, CHR 0xC2, CHR 0xC3, CHR 0xC4, CHR 0xC5, CHR
          0xC6, CHR 0xC7, CHR 0xC8, CHR 0xC9, CHR 0xCA, CHR 0xCB, CHR 0xCC,
          CHR 0xCD, CHR 0xCE, CHR 0xCF, CHR 0xD0, CHR 0xD1, CHR 0xD2, CHR
          0xD3, CHR 0xD4, CHR 0xD5, CHR 0xD6, CHR 0xD8, CHR 0xD9, CHR 0xDA,
          CHR 0xDB, CHR 0xDC, CHR 0xDD, CHR 0xDE])
             (''abcdefghijklmnopqrstuvwxyz'' @
          [CHR 0xE0, CHR 0xE1, CHR 0xE2, CHR 0xE3, CHR 0xE4, CHR 0xE5, CHR
          0xE6, CHR 0xE7, CHR 0xE8, CHR 0xE9, CHR 0xEA, CHR 0xEB, CHR 0xEC,
          CHR 0xED, CHR 0xEE, CHR 0xEF, CHR 0xF0, CHR 0xF1, CHR 0xF2, CHR
          0xF3, CHR 0xF4, CHR 0xF5, CHR 0xF6, CHR 0xF8, CHR 0xF9, CHR 0xFA,
          CHR 0xFB, CHR 0xFC, CHR 0xFD, CHR 0xFE]))
        c of
        Some l \<Rightarrow> l
      | None \<Rightarrow> c)"

definition toLowerCase :: "string \<Rightarrow> string" where
  "toLowerCase s = map toLowerUnit s"

text \<open>
  The readings of the filter rule that the panel is compared with.  The text \<open>f\<close>
  occurs in \<open>s\<close>, case set aside, when the lower-cased \<open>f\<close> is a piece of the
  lower-cased \<open>s\<close>.  An entry matches \<open>f\<close> when \<open>f\<close> is empty or occurs so in its name,
  its path or its reason detail.
\<close>

definition occursLowered :: "(string \<Rightarrow> string) \<Rightarrow> string \<Rightarrow> string \<Rightarrow> bool" where
  "occursLowered lower f s \<longleftrightarrow> (\<exists>before after. lower s = before @ lower f @ after)"

definition specMatch :: "(string \<Rightarrow> string) \<Rightarrow> string \<Rightarrow> source \<Rightarrow> bool" where
  "specMatch lower f s \<longleftrightarrow>
     f = []
     \<or> occursLowered lower f (orEmpty (name s))
     \<or> occursLowered lower f (orEmpty (path s))
     \<or> occursLowered lower f (orEmpty (reason_detail s))"

text \<open>
  The same with a window: \<open>s\<close> has a window of the length of \<open>f\<close> that agrees with \<open>f\<close>
  character by character, two characters agreeing when \<open>lc\<close> gives them the same
  lower-case form.
\<close>

definition occursIgnoringCase :: "(char \<Rightarrow> char) \<Rightarrow> string \<Rightarrow> string \<Rightarrow> bool" where
  "occursIgnoringCase lc f s \<longleftrightarrow>
     (\<exists>before w after. s = before @ w @ after \<and> list_all2 (\<lambda>a b. lc a = lc b) w f)"

section \<open>Chat controller (Chat)\<close>

text \<open>
  The body of a parsed \<^verbatim>\<open>/ask\<close> response, with the four fields the client reads.
  \<^const>\<open>None\<close> is a field that is missing or \<^verbatim>\<open>null\<close>.
\<close>

record ask_data =
  data_answer :: "string option"
  data_markdown :: "string option"
  data_sources :: "source list option"
  data_results :: "source list option"

text \<open>
  How the awaited \<^verbatim>\<open>fetch\<close> and \<^verbatim>\<open>resp.json()\<close> end: with a parsed body, with
  the rejection named \<^verbatim>\<open>AbortError\<close> of an aborted signal, or with any other
  exception, of which the client reads the message.
\<close>

datatype outcome = Resolved ask_data | AbortError | OtherError string

text \<open>
  The state the controller works on: the two cells of App it reaches through its
  props, its own cells, and the list behind \<^verbatim>\<open>abortRef.current\<close>.  An
  \<^verbatim>\<open>AbortController\<close> is the number it was created with; \<open>aborted\<close> collects the
  controllers whose \<^verbatim>\<open>abort()\<close> has run.
\<close>

record chat_state =
  messages :: "message list"
  sources :: "source list"
  sending :: bool
  editingIndex :: "nat option"
  editingText :: string
  abortRef :: "nat list"
  aborted :: "nat list"
  nextController :: nat

text \<open>\<^verbatim>\<open>setMessages(updater)\<close> and \<^verbatim>\<open>setSourceList(list)\<close> of App.\<close>

definition setMessages :: "(message list \<Rightarrow> message list) \<Rightarrow> chat_state \<Rightarrow> chat_state" where
  "setMessages f st = st\<lparr>messages := f (messages st)\<rparr>"

definition setSourceList :: "source list \<Rightarrow> chat_state \<Rightarrow> chat_state" where
  "setSourceList l st = st\<lparr>sources := l\<rparr>"

text \<open>The three fixed pieces of markup of \<^verbatim>\<open>sendQuery\<close>.\<close>

definition placeholder :: string where
  "placeholder =
     ''<div class='' @ [CHR 0x22] @ ''loading inline'' @ [CHR 0x22] @ ''><span class=''
     @ [CHR 0x22] @ ''spinner'' @ [CHR 0x22] @ ''></span>Thinking...</div>''"

definition cancelNotice :: string where
  "cancelNotice =
     ''<div class='' @ [CHR 0x27] @ ''muted'' @ [CHR 0x27] @ ''>Request canceled.</div>''"

definition errorNotice :: "string \<Rightarrow> string" where
  "errorNotice msg =
     ''<div class='' @ [CHR 0x27] @ ''error'' @ [CHR 0x27] @ ''>Error: ''
     @ escapeHtml (Some msg) @ ''</div>''"

text \<open>
  \<^verbatim>\<open>sendQuery(q)\<close> up to the \<^verbatim>\<open>await\<close>: the guard, the flag, the new controller
  pushed on the list, the two messages.  The second component is the controller of
  the request that was issued, if one was.  \<open>t1\<close> and \<open>t2\<close> are the clock readings of
  the two \<^verbatim>\<open>addMessage\<close> calls.

  The guard does not read the state cell: \<^verbatim>\<open>sending\<close> is a constant of the render
  that made the handler, and \<^verbatim>\<open>setSending(true)\<close> only asks for a new render.  The
  value the handler holds is the first parameter.  The list behind \<^verbatim>\<open>abortRef\<close> and
  the updaters given to \<^verbatim>\<open>setMessages\<close> work on the state as it is.
\<close>

definition sendQuery_captured ::
  "bool \<Rightarrow> string \<Rightarrow> string \<Rightarrow> string \<Rightarrow> chat_state \<Rightarrow> chat_state \<times> nat option" where
  "sendQuery_captured sendingSeen q t1 t2 st =
     (if q = [] \<or> sendingSeen then (st, None)
      else
        let controller = nextController st;
            s1 = st\<lparr>sending := True,
                    abortRef := abortRef st @ [controller],
                    nextController := Suc controller\<rparr>;
            s2 = setMessages (addMessage ''user'' (''<div>'' @ escapeHtml (Some q) @ ''</div>'') t1) s1;
            s3 = setMessages (addMessage ''assistant'' placeholder t2) s2
        in (s3, Some controller))"

text \<open>
  The call made by a handler of the render of the state it starts in: the flag it
  holds is the flag of that state.
\<close>

definition sendQuery_begin ::
  "string \<Rightarrow> string \<Rightarrow> string \<Rightarrow> chat_state \<Rightarrow> chat_state \<times> nat option" where
  "sendQuery_begin q t1 t2 st = sendQuery_captured (sending st) q t1 t2 st"

text \<open>The \<^verbatim>\<open>try\<close> block after the \<^verbatim>\<open>await\<close>, on a parsed body.\<close>

definition onResponse :: "ask_data \<Rightarrow> string \<Rightarrow> string \<Rightarrow> chat_state \<Rightarrow> chat_state" where
  "onResponse d t1 t2 st =
     (let s1 = (case data_answer d of
                  None \<Rightarrow> st
                | Some a \<Rightarrow>
                    if a = [] then st
                    else setMessages
                           (replaceLastAssistant (''<div>'' @ escapeHtml (Some a) @ ''</div>'') t1) st);
          s2 = (case data_markdown d of
                  None \<Rightarrow> s1
                | Some md \<Rightarrow>
                    if md = [] then s1
                    else setMessages
                           (addMessage ''assistant''
                              (''<pre>'' @ escapeHtml (Some (cleanMarkdown md)) @ ''</pre>'') t2) s1)
      in setSourceList
           (case data_sources d of
              Some l \<Rightarrow> l
            | None \<Rightarrow> (case data_results d of Some l \<Rightarrow> l | None \<Rightarrow> []))
           s2)"

text \<open>The \<^verbatim>\<open>finally\<close> block, for the controller of this call.\<close>

definition onFinally :: "nat \<Rightarrow> chat_state \<Rightarrow> chat_state" where
  "onFinally controller st =
     st\<lparr>sending := False,
        abortRef := remove1 controller (abortRef st),
        editingIndex := None,
        editingText := []\<rparr>"

text \<open>
  \<^verbatim>\<open>sendQuery\<close> from the \<^verbatim>\<open>await\<close> on: the rest of the \<^verbatim>\<open>try\<close> block or the
  \<^verbatim>\<open>catch\<close> block, then \<^verbatim>\<open>finally\<close>.
\<close>

definition sendQuery_settle ::
  "nat \<Rightarrow> outcome \<Rightarrow> string \<Rightarrow> string \<Rightarrow> chat_state \<Rightarrow> chat_state" where
  "sendQuery_settle controller out t1 t2 st =
     onFinally controller
       (case out of
          Resolved d \<Rightarrow> onResponse d t1 t2 st
        | AbortError \<Rightarrow> setMessages (replaceLastAssistant cancelNotice t1) st
        | OtherError msg \<Rightarrow> setMessages (replaceLastAssistant (errorNotice msg) t1) st)"

text \<open>
  \<^verbatim>\<open>cancelRequest()\<close>: \<^verbatim>\<open>abort()\<close> on every controller of the list, then the list
  is emptied and the flag cleared.
\<close>

definition cancelRequest :: "chat_state \<Rightarrow> chat_state" where
  "cancelRequest st =
     st\<lparr>aborted := aborted st @ abortRef st, abortRef := [], sending := False\<rparr>"

text \<open>\<^verbatim>\<open>handleEditClick(i, m)\<close>: the edit buffer is filled from the stored markup.\<close>

definition handleEditClick :: "nat \<Rightarrow> message \<Rightarrow> chat_state \<Rightarrow> chat_state" where
  "handleEditClick i m st = st\<lparr>editingIndex := Some i, editingText := stripHtml (Some (content m))\<rparr>"

text \<open>
  \<^verbatim>\<open>doOpen(path)\<close> of Sources from the point where its \<^verbatim>\<open>fetch\<close> has ended, as
  far as it reaches the store: the notice it appends when the call completed
  (\<open>failure\<close> is \<^const>\<open>None\<close>) and when it threw (\<open>failure\<close> is the message of the
  exception).
\<close>

definition openedNotice :: "string \<Rightarrow> string" where
  "openedNotice p =
     ''<div class='' @ [CHR 0x27] @ ''success'' @ [CHR 0x27] @ ''>Opened: ''
     @ escapeHtml (Some p) @ ''</div>''"

definition openFailedNotice :: "string \<Rightarrow> string" where
  "openFailedNotice msg =
     ''<div class='' @ [CHR 0x27] @ ''error'' @ [CHR 0x27] @ ''>Open failed: ''
     @ escapeHtml (Some msg) @ ''</div>''"

definition doOpen :: "string \<Rightarrow> string option \<Rightarrow> string \<Rightarrow> chat_state \<Rightarrow> chat_state" where
  "doOpen p failure now st =
     (case failure of
        None \<Rightarrow> setMessages (addMessage ''assistant'' (openedNotice p) now) st
      | Some msg \<Rightarrow> setMessages (addMessage ''assistant'' (openFailedNotice msg) now) st)"

text \<open>An idle controller with an empty transcript, for the worked examples.\<close>

definition exampleIdle :: chat_state where
  "exampleIdle =
     \<lparr>messages = [], sources = [], sending = False, editingIndex = None, editingText = [],
      abortRef = [], aborted = [], nextController = 0\<rparr>"

section \<open>Properties the store is compared with\<close>

text \<open>
  A later message list keeps an earlier one: it is at least as long, every old index
  still holds a message of the same role, and a message whose role is not
  \<^verbatim>\<open>assistant\<close> is the very same message.
\<close>

definition historyKept :: "message list \<Rightarrow> message list \<Rightarrow> bool" where
  "historyKept m m' \<longleftrightarrow>
     length m \<le> length m'
     \<and> (\<forall>i<length m. role (m' ! i) = role (m ! i)
            \<and> (role (m ! i) \<noteq> ''assistant'' \<longrightarrow> m' ! i = m ! i))"

section \<open>Auxiliary facts\<close>

subsection \<open>The scan of \<^verbatim>\<open>replaceLastAssistant\<close>\<close>

lemma replaceLoop_none:
  "(\<forall>j<n. \<not> isPending (m ! j)) \<Longrightarrow> replaceLoop n m c t = None"
  by (induction n) simp_all

lemma replaceLoop_some:
  "i < n \<Longrightarrow> isPending (m ! i) \<Longrightarrow> (\<forall>j. i < j \<and> j < n \<longrightarrow> \<not> isPending (m ! j)) \<Longrightarrow>
   replaceLoop n m c t = Some (m[i := (m ! i)\<lparr>content := c, time := Some t\<rparr>])"
proof (induction n)
  case 0
  then show ?case by simp
next
  case (Suc n)
  show ?case
  proof (cases "i = n")
    case True
    with Suc.prems show ?thesis by simp
  next
    case False
    with Suc.prems have "i < n" and "\<not> isPending (m ! n)" by auto
    with Suc show ?thesis by simp
  qed
qed

lemma replaceLastAssistant_at:
  assumes "i < length m" and "isPending (m ! i)"
    and "\<forall>j. i < j \<and> j < length m \<longrightarrow> \<not> isPending (m ! j)"
  shows "replaceLastAssistant c t m = m[i := (m ! i)\<lparr>content := c, time := Some t\<rparr>]"
  using replaceLoop_some [OF assms] by (simp add: replaceLastAssistant_def)

lemma replaceLastAssistant_append:
  assumes "\<forall>j<length m. \<not> isPending (m ! j)"
  shows "replaceLastAssistant c t m = m @ [\<lparr>role = ''assistant'', content = c, time = Some t\<rparr>]"
  using replaceLoop_none [OF assms] by (simp add: replaceLastAssistant_def)

lemma replaceLastAssistant_split:
  assumes "isPending ph" and "\<forall>x\<in>set post. \<not> isPending x"
  shows "replaceLastAssistant c t (pre @ ph # post)
         = pre @ ph\<lparr>content := c, time := Some t\<rparr> # post"
proof -
  let ?m = "pre @ ph # post"
  have 1: "length pre < length ?m" by simp
  have 2: "isPending (?m ! length pre)" using assms(1) by simp
  have 3: "\<forall>j. length pre < j \<and> j < length ?m \<longrightarrow> \<not> isPending (?m ! j)"
  proof (intro allI impI)
    fix j assume j: "length pre < j \<and> j < length ?m"
    then have "?m ! j = post ! (j - Suc (length pre))"
      by (simp add: nth_append nth_Cons')
    moreover from j have "j - Suc (length pre) < length post" by auto
    ultimately show "\<not> isPending (?m ! j)" using assms(2) by simp
  qed
  show ?thesis
    using replaceLastAssistant_at [OF 1 2 3, of c t] by (simp add: list_update_append)
qed

lemma last_pending_exists:
  "(\<exists>i<length m. isPending (m ! i) \<and> (\<forall>j. i < j \<and> j < length m \<longrightarrow> \<not> isPending (m ! j)))
   \<or> (\<forall>j<length m. \<not> isPending (m ! j))"
proof (cases "\<exists>i<length m. isPending (m ! i)")
  case False
  then show ?thesis by blast
next
  case True
  let ?S = "{i. i < length m \<and> isPending (m ! i)}"
  have fin: "finite ?S" by simp
  from True have ne: "?S \<noteq> {}" by blast
  have mx: "Max ?S \<in> ?S" using Max_in [OF fin ne] .
  have "\<forall>j. Max ?S < j \<and> j < length m \<longrightarrow> \<not> isPending (m ! j)"
  proof (intro allI impI notI)
    fix j assume "Max ?S < j \<and> j < length m" and "isPending (m ! j)"
    then have "j \<in> ?S" by simp
    then have "j \<le> Max ?S" using Max_ge [OF fin] by blast
    with \<open>Max ?S < j \<and> j < length m\<close> show False by simp
  qed
  with mx show ?thesis by blast
qed


subsection \<open>Escaping and stripping\<close>

lemma escapeChar_clean:
  "set (escapeChar c) \<inter> {CHR ''<'', CHR ''>'', CHR 0x22, CHR 0x27} = {}"
  by (simp add: escapeChar_def)

lemma escapeHtml_Some: "escapeHtml (Some s) = concat (map escapeChar s)"
  by (simp add: escapeHtml_def)

lemma escapeHtml_clean:
  "set (escapeHtml t) \<inter> {CHR ''<'', CHR ''>'', CHR 0x22, CHR 0x27} = {}"
proof (cases t)
  case None
  then show ?thesis by (simp add: escapeHtml_def)
next
  case (Some s)
  have "set (concat (map escapeChar s)) \<inter> {CHR ''<'', CHR ''>'', CHR 0x22, CHR 0x27} = {}"
  proof (induction s)
    case Nil
    show ?case by simp
  next
    case (Cons c s)
    with escapeChar_clean [of c] show ?case by (simp add: Int_Un_distrib2)
  qed
  with Some show ?thesis by (simp add: escapeHtml_Some)
qed

lemma escapeChar_plain:
  "c \<notin> {CHR ''&'', CHR ''<'', CHR ''>'', CHR 0x22, CHR 0x27} \<Longrightarrow> escapeChar c = [c]"
  by (simp add: escapeChar_def)

lemma escapeChar_length: "1 \<le> length (escapeChar c)"
  by (simp add: escapeChar_def)

lemma escapeChar_longer:
  "c \<in> {CHR ''&'', CHR ''<'', CHR ''>'', CHR 0x22, CHR 0x27} \<Longrightarrow> 1 < length (escapeChar c)"
  by (auto simp: escapeChar_def)

lemma escapeHtml_length: "length s \<le> length (escapeHtml (Some s))"
proof (induction s)
  case Nil
  show ?case by (simp add: escapeHtml_Some)
next
  case (Cons c s)
  with escapeChar_length [of c] show ?case by (simp add: escapeHtml_Some)
qed

lemma escapeHtml_fixed_iff:
  "escapeHtml (Some s) = s
   \<longleftrightarrow> set s \<inter> {CHR ''&'', CHR ''<'', CHR ''>'', CHR 0x22, CHR 0x27} = {}"
proof
  assume "set s \<inter> {CHR ''&'', CHR ''<'', CHR ''>'', CHR 0x22, CHR 0x27} = {}"
  then show "escapeHtml (Some s) = s"
  proof (induction s)
    case Nil
    show ?case by (simp add: escapeHtml_Some)
  next
    case (Cons c s)
    then have "c \<notin> {CHR ''&'', CHR ''<'', CHR ''>'', CHR 0x22, CHR 0x27}" by auto
    then have "escapeChar c = [c]" by (rule escapeChar_plain)
    moreover from Cons have "escapeHtml (Some s) = s" by auto
    ultimately show ?case by (simp add: escapeHtml_Some)
  qed
next
  assume fixed: "escapeHtml (Some s) = s"
  have "length s < length (escapeHtml (Some s))"
    if "set s \<inter> {CHR ''&'', CHR ''<'', CHR ''>'', CHR 0x22, CHR 0x27} \<noteq> {}" for s
    using that
  proof (induction s)
    case Nil
    then show ?case by simp
  next
    case (Cons c s)
    show ?case
    proof (cases "c \<in> {CHR ''&'', CHR ''<'', CHR ''>'', CHR 0x22, CHR 0x27}")
      case True
      then have "1 < length (escapeChar c)" by (rule escapeChar_longer)
      with escapeHtml_length [of s] show ?thesis by (simp add: escapeHtml_Some)
    next
      case False
      with Cons.prems have "set s \<inter> {CHR ''&'', CHR ''<'', CHR ''>'', CHR 0x22, CHR 0x27} \<noteq> {}"
        by auto
      then have "length s < length (escapeHtml (Some s))" by (rule Cons.IH)
      with escapeChar_length [of c] show ?thesis by (simp add: escapeHtml_Some)
    qed
  qed
  with fixed show "set s \<inter> {CHR ''&'', CHR ''<'', CHR ''>'', CHR 0x22, CHR 0x27} = {}"
    by force
qed

lemma stripTags_plain:
  "CHR ''<'' \<notin> set s \<Longrightarrow> stripTags (s @ r) = s @ stripTags r"
  by (induction s) auto

lemma stripTags_div:
  assumes "CHR ''<'' \<notin> set e"
  shows "stripTags (''<div>'' @ e @ ''</div>'') = e"
proof -
  have "stripTags (''<div>'' @ e @ ''</div>'') = stripTags (e @ ''</div>'')" by simp
  also have "\<dots> = e @ stripTags ''</div>''" using assms by (rule stripTags_plain)
  also have "stripTags ''</div>'' = []" by simp
  finally show ?thesis by simp
qed

lemma stripHtml_div:
  "stripHtml (Some (''<div>'' @ escapeHtml t @ ''</div>'')) = escapeHtml t"
proof -
  have "CHR ''<'' \<notin> set (escapeHtml t)" using escapeHtml_clean [of t] by auto
  then have "stripTags (''<div>'' @ escapeHtml t @ ''</div>'') = escapeHtml t"
    by (rule stripTags_div)
  then show ?thesis by (simp add: stripHtml_def)
qed

subsection \<open>The synchronous part of \<^verbatim>\<open>sendQuery\<close>\<close>

lemma sendQuery_captured_run:
  assumes "q \<noteq> []" and "\<not> sendingSeen"
  shows "sendQuery_captured sendingSeen q t1 t2 st =
           (st\<lparr>messages := messages st @
                   [\<lparr>role = ''user'', content = ''<div>'' @ escapeHtml (Some q) @ ''</div>'',
                      time = Some t1\<rparr>,
                    \<lparr>role = ''assistant'', content = placeholder, time = Some t2\<rparr>],
                sending := True,
                abortRef := abortRef st @ [nextController st],
                nextController := Suc (nextController st)\<rparr>,
            Some (nextController st))"
  using assms by (simp add: sendQuery_captured_def setMessages_def addMessage_def Let_def)

lemma sendQuery_captured_drop:
  "sendingSeen \<Longrightarrow> sendQuery_captured sendingSeen q t1 t2 st = (st, None)"
  by (simp add: sendQuery_captured_def)

lemma sendQuery_begin_run:
  assumes "q \<noteq> []" and "\<not> sending st"
  shows "sendQuery_begin q t1 t2 st =
           (st\<lparr>messages := messages st @
                   [\<lparr>role = ''user'', content = ''<div>'' @ escapeHtml (Some q) @ ''</div>'',
                      time = Some t1\<rparr>,
                    \<lparr>role = ''assistant'', content = placeholder, time = Some t2\<rparr>],
                sending := True,
                abortRef := abortRef st @ [nextController st],
                nextController := Suc (nextController st)\<rparr>,
            Some (nextController st))"
  using assms
  by (simp add: sendQuery_begin_def sendQuery_captured_def setMessages_def addMessage_def Let_def)

lemma placeholder_pending:
  "isPending \<lparr>role = ''assistant'', content = placeholder, time = t\<rparr>"
  by (simp add: isPending_def placeholder_def)

subsection \<open>The part of \<^verbatim>\<open>sendQuery\<close> after the \<^verbatim>\<open>await\<close>\<close>

lemma settle_abort:
  "sendQuery_settle c AbortError t3 t4 p
   = p\<lparr>messages := replaceLastAssistant cancelNotice t3 (messages p),
       sending := False, abortRef := remove1 c (abortRef p),
       editingIndex := None, editingText := []\<rparr>"
  by (simp add: sendQuery_settle_def onFinally_def setMessages_def)

lemma settle_messages_resolved:
  "messages (sendQuery_settle c (Resolved d) t3 t4 p)
   = (case data_answer d of
        None \<Rightarrow> messages p
      | Some a \<Rightarrow> if a = [] then messages p
                  else replaceLastAssistant (''<div>'' @ escapeHtml (Some a) @ ''</div>'') t3 (messages p))
     @ (case data_markdown d of
          None \<Rightarrow> []
        | Some md \<Rightarrow> if md = [] then []
                     else [\<lparr>role = ''assistant'',
                             content = ''<pre>'' @ escapeHtml (Some (cleanMarkdown md)) @ ''</pre>'',
                             time = Some t4\<rparr>])"
  by (simp add: sendQuery_settle_def onFinally_def onResponse_def setMessages_def
      setSourceList_def addMessage_def Let_def split: option.splits)

lemma settle_sources_resolved:
  "sources (sendQuery_settle c (Resolved d) t3 t4 p)
   = (case data_sources d of
        Some l \<Rightarrow> l
      | None \<Rightarrow> (case data_results d of Some l \<Rightarrow> l | None \<Rightarrow> []))"
  by (simp add: sendQuery_settle_def onFinally_def onResponse_def setMessages_def
      setSourceList_def Let_def split: option.splits)

lemma cancelNotice_text:
  "cancelNotice = ''<div class='' @ [CHR 0x27] @ ''muted'' @ [CHR 0x27] @ ''>Request canceled.</div>''"
  by (simp add: cancelNotice_def)

lemma cancelNotice_not_pending:
  "\<not> isPending (x\<lparr>content := cancelNotice, time := t\<rparr>)"
  by (simp add: isPending_def cancelNotice_def)

lemma begin_then_replace:
  assumes "q \<noteq> []" and "\<not> sending st"
  shows "replaceLastAssistant c t (messages (fst (sendQuery_begin q t1 t2 st)))
         = messages st @
           [\<lparr>role = ''user'', content = ''<div>'' @ escapeHtml (Some q) @ ''</div>'', time = Some t1\<rparr>,
            \<lparr>role = ''assistant'', content = c, time = Some t\<rparr>]"
proof -
  let ?u = "\<lparr>role = ''user'', content = ''<div>'' @ escapeHtml (Some q) @ ''</div>'', time = Some t1\<rparr>"
  let ?ph = "\<lparr>role = ''assistant'', content = placeholder, time = Some t2\<rparr>"
  have m: "messages (fst (sendQuery_begin q t1 t2 st)) = (messages st @ [?u]) @ ?ph # []"
    using assms by (simp add: sendQuery_begin_run)
  have "replaceLastAssistant c t ((messages st @ [?u]) @ ?ph # [])
        = (messages st @ [?u]) @ ?ph\<lparr>content := c, time := Some t\<rparr> # []"
    by (rule replaceLastAssistant_split) (simp_all add: placeholder_pending)
  with m show ?thesis by simp
qed

subsection \<open>Keeping the transcript\<close>

lemma historyKept_refl: "historyKept m m"
  by (simp add: historyKept_def)

lemma historyKept_trans:
  assumes "historyKept a b" and "historyKept b c"
  shows "historyKept a c"
  unfolding historyKept_def
proof (intro conjI allI impI)
  show "length a \<le> length c" using assms by (simp add: historyKept_def)
next
  fix i assume i: "i < length a"
  then have ib: "i < length b" using assms(1) by (simp add: historyKept_def)
  from i assms(1) have ab: "role (b ! i) = role (a ! i)" by (simp add: historyKept_def)
  from ib assms(2) have bc: "role (c ! i) = role (b ! i)" by (simp add: historyKept_def)
  from ab bc show "role (c ! i) = role (a ! i)" by simp
next
  fix i assume i: "i < length a" and na: "role (a ! i) \<noteq> ''assistant''"
  then have ib: "i < length b" using assms(1) by (simp add: historyKept_def)
  from i na assms(1) have ab: "b ! i = a ! i" by (simp add: historyKept_def)
  with na have "role (b ! i) \<noteq> ''assistant''" by simp
  with ib assms(2) have "c ! i = b ! i" by (simp add: historyKept_def)
  with ab show "c ! i = a ! i" by simp
qed

lemma historyKept_append: "historyKept m (m @ xs)"
  by (simp add: historyKept_def nth_append)

lemma replaceLastAssistant_cases:
  "(\<exists>i<length m. isPending (m ! i)
       \<and> replaceLastAssistant c t m = m[i := (m ! i)\<lparr>content := c, time := Some t\<rparr>])
   \<or> replaceLastAssistant c t m = m @ [\<lparr>role = ''assistant'', content = c, time = Some t\<rparr>]"
  using last_pending_exists [of m] replaceLastAssistant_at [of _ m c t]
    replaceLastAssistant_append [of m c t]
  by blast

lemma historyKept_replace: "historyKept m (replaceLastAssistant c t m)"
proof -
  from replaceLastAssistant_cases [of m c t] show ?thesis
  proof
    assume "\<exists>i<length m. isPending (m ! i)
       \<and> replaceLastAssistant c t m = m[i := (m ! i)\<lparr>content := c, time := Some t\<rparr>]"
    then obtain i where i: "i < length m" "isPending (m ! i)"
      and r: "replaceLastAssistant c t m = m[i := (m ! i)\<lparr>content := c, time := Some t\<rparr>]"
      by blast
    from i have "role (m ! i) = ''assistant''" by (simp add: isPending_def)
    with i(1) show ?thesis unfolding r historyKept_def
      by (auto simp: nth_list_update)
  next
    assume "replaceLastAssistant c t m = m @ [\<lparr>role = ''assistant'', content = c, time = Some t\<rparr>]"
    then show ?thesis by (simp add: historyKept_append)
  qed
qed

lemma historyKept_settle:
  "historyKept (messages st) (messages (sendQuery_settle k out t1 t2 st))"
proof (cases out)
  case (Resolved d)
  let ?m1 = "(case data_answer d of
        None \<Rightarrow> messages st
      | Some a \<Rightarrow> if a = [] then messages st
                  else replaceLastAssistant (''<div>'' @ escapeHtml (Some a) @ ''</div>'') t1 (messages st))"
  have "historyKept (messages st) ?m1"
    by (simp add: historyKept_refl historyKept_replace split: option.splits)
  moreover have "historyKept ?m1 (messages (sendQuery_settle k out t1 t2 st))"
    unfolding Resolved settle_messages_resolved by (rule historyKept_append)
  ultimately show ?thesis by (rule historyKept_trans)
next
  case AbortError
  then show ?thesis by (simp add: settle_abort historyKept_replace)
next
  case (OtherError msg)
  then show ?thesis
    by (simp add: sendQuery_settle_def onFinally_def setMessages_def historyKept_replace)
qed

subsection \<open>Substrings and the filter\<close>

lemma startsWith_iff: "startsWith s q \<longleftrightarrow> (\<exists>r. s = q @ r)"
  by (induction s q rule: startsWith.induct) auto

lemma js_includes_iff: "js_includes s q \<longleftrightarrow> (\<exists>b a. s = b @ q @ a)"
proof (induction s)
  case Nil
  then show ?case by auto
next
  case (Cons c cs)
  show ?case
  proof
    assume "js_includes (c # cs) q"
    then consider "startsWith (c # cs) q" | "js_includes cs q" by auto
    then show "\<exists>b a. c # cs = b @ q @ a"
    proof cases
      case 1
      then obtain r where "c # cs = q @ r" by (auto simp: startsWith_iff)
      then have "c # cs = [] @ q @ r" by simp
      then show ?thesis by blast
    next
      case 2
      with Cons obtain b a where "cs = b @ q @ a" by auto
      then have "c # cs = (c # b) @ q @ a" by simp
      then show ?thesis by blast
    qed
  next
    assume "\<exists>b a. c # cs = b @ q @ a"
    then obtain b a where e: "c # cs = b @ q @ a" by blast
    show "js_includes (c # cs) q"
    proof (cases b)
      case Nil
      with e have "startsWith (c # cs) q" by (auto simp: startsWith_iff)
      then show ?thesis by simp
    next
      case (Cons b0 bs)
      with e have "cs = bs @ q @ a" by simp
      with Cons.IH have "js_includes cs q" by blast
      then show ?thesis by simp
    qed
  qed
qed

lemma filterMatch_spec: "filterMatch lower f s \<longleftrightarrow> specMatch lower f s"
  by (simp add: filterMatch_def specMatch_def occursLowered_def js_includes_iff Let_def)

lemma same_window:
  "map lc w = map lc f \<longleftrightarrow> list_all2 (\<lambda>a b. lc a = lc b) w f"
  by (induction w arbitrary: f) (auto simp: list_all2_Cons1 map_eq_Cons_conv)

lemma occursLowered_charwise:
  assumes "\<forall>x. lower x = map lc x"
  shows "occursLowered lower f s \<longleftrightarrow> occursIgnoringCase lc f s"
proof
  assume "occursLowered lower f s"
  then obtain b a where "map lc s = b @ map lc f @ a"
    using assms by (auto simp: occursLowered_def)
  then obtain sb sw sa where "s = sb @ sw @ sa" "map lc sw = map lc f"
    by (auto simp: map_eq_append_conv append_eq_map_conv)
  then show "occursIgnoringCase lc f s"
    unfolding occursIgnoringCase_def using same_window [of lc sw f] by blast
next
  assume "occursIgnoringCase lc f s"
  then obtain sb sw sa where s: "s = sb @ sw @ sa"
    and "list_all2 (\<lambda>a b. lc a = lc b) sw f"
    unfolding occursIgnoringCase_def by blast
  then have "map lc sw = map lc f"
    using same_window [of lc sw f] by simp
  with s have "map lc s = map lc sb @ map lc f @ map lc sa" by simp
  then show "occursLowered lower f s"
    unfolding occursLowered_def using assms by auto
qed

lemma occursLowered_window:
  assumes "lower w = lower f"
    and "lower (b @ w @ a) = lower b @ lower w @ lower a"
  shows "occursLowered lower f (b @ w @ a)"
  unfolding occursLowered_def using assms by auto

lemma filter_single:
  assumes "P s" and "\<forall>x\<in>set before \<union> set after. \<not> P x"
  shows "filter P (before @ s # after) = [s]"
proof -
  have "filter P before = []" and "filter P after = []"
    using assms(2) by (auto simp: filter_empty_conv)
  with assms(1) show ?thesis by simp
qed

section \<open>The session store\<close>

text \<open>
  Claim C8.  \<^verbatim>\<open>replaceLastAssistant\<close> looks from the end of the message sequence for
  the most recent assistant message whose content carries the pending marker and
  overwrites the content and the timestamp of that message where it stands: when \<open>i\<close>
  is the index of a pending assistant message and no later message is one, the
  result is the old sequence with index \<open>i\<close> updated.  When no message is a pending
  assistant message, the result is the old sequence with one new assistant message
  at the end.  Every sequence falls under one of the two cases, so the operation
  always returns a sequence.
\<close>

theorem replaceLastAssistant_scan:
  "(i < length m \<and> isPending (m ! i) \<and> (\<forall>j. i < j \<and> j < length m \<longrightarrow> \<not> isPending (m ! j))
      \<longrightarrow> replaceLastAssistant c now m = m[i := (m ! i)\<lparr>content := c, time := Some now\<rparr>])
   \<and> ((\<forall>j<length m. \<not> isPending (m ! j))
      \<longrightarrow> replaceLastAssistant c now m
          = m @ [\<lparr>role = ''assistant'', content = c, time = Some now\<rparr>])
   \<and> ((\<exists>k<length m. isPending (m ! k) \<and> (\<forall>j. k < j \<and> j < length m \<longrightarrow> \<not> isPending (m ! j)))
        \<or> (\<forall>j<length m. \<not> isPending (m ! j)))"
  using replaceLastAssistant_at [of i m c now] replaceLastAssistant_append [of m c now]
    last_pending_exists [of m]
  by blast

theorem replaceLastAssistant_scan_witness:
  "replaceLastAssistant ''<div>done</div>'' ''10:01''
     [\<lparr>role = ''assistant'', content = placeholder, time = Some ''09:58''\<rparr>,
      \<lparr>role = ''user'', content = ''<div>hi</div>'', time = Some ''10:00''\<rparr>,
      \<lparr>role = ''assistant'', content = placeholder, time = Some ''10:00''\<rparr>,
      \<lparr>role = ''assistant'', content = ''<div>note</div>'', time = Some ''10:00''\<rparr>]
   = [\<lparr>role = ''assistant'', content = placeholder, time = Some ''09:58''\<rparr>,
      \<lparr>role = ''user'', content = ''<div>hi</div>'', time = Some ''10:00''\<rparr>,
      \<lparr>role = ''assistant'', content = ''<div>done</div>'', time = Some ''10:01''\<rparr>,
      \<lparr>role = ''assistant'', content = ''<div>note</div>'', time = Some ''10:00''\<rparr>]
   \<and> replaceLastAssistant ''<div>done</div>'' ''10:01''
       [\<lparr>role = ''user'', content = ''<div>Thinking</div>'', time = Some ''10:00''\<rparr>]
     = [\<lparr>role = ''user'', content = ''<div>Thinking</div>'', time = Some ''10:00''\<rparr>,
        \<lparr>role = ''assistant'', content = ''<div>done</div>'', time = Some ''10:01''\<rparr>]"
proof -
  let ?m = "[\<lparr>role = ''assistant'', content = placeholder, time = Some ''09:58''\<rparr>,
      \<lparr>role = ''user'', content = ''<div>hi</div>'', time = Some ''10:00''\<rparr>,
      \<lparr>role = ''assistant'', content = placeholder, time = Some ''10:00''\<rparr>,
      \<lparr>role = ''assistant'', content = ''<div>note</div>'', time = Some ''10:00''\<rparr>]"
  let ?u = "[\<lparr>role = ''user'', content = ''<div>Thinking</div>'', time = Some ''10:00''\<rparr>]"
  have later: "\<forall>j. 2 < j \<and> j < length ?m \<longrightarrow> \<not> isPending (?m ! j)"
  proof (intro allI impI)
    fix j assume "2 < j \<and> j < length ?m"
    then have "j = 3" by simp
    then show "\<not> isPending (?m ! j)" by (simp add: isPending_def)
  qed
  have here: "2 < length ?m \<and> isPending (?m ! 2)"
    by (simp add: isPending_def placeholder_def)
  have none: "\<forall>j<length ?u. \<not> isPending (?u ! j)"
    by (simp add: isPending_def)
  from replaceLastAssistant_scan [of 2 ?m "''<div>done</div>''" "''10:01''"] here later
  have a: "replaceLastAssistant ''<div>done</div>'' ''10:01'' ?m
           = ?m[2 := (?m ! 2)\<lparr>content := ''<div>done</div>'', time := Some ''10:01''\<rparr>]"
    by blast
  from replaceLastAssistant_scan [of 0 ?u "''<div>done</div>''" "''10:01''"] none
  have b: "replaceLastAssistant ''<div>done</div>'' ''10:01'' ?u
           = ?u @ [\<lparr>role = ''assistant'', content = ''<div>done</div>'', time = Some ''10:01''\<rparr>]"
    by blast
  show ?thesis unfolding a b by (simp add: numeral_2_eq_2)
qed


text \<open>
  Claim C9.  The store's operations keep the transcript.  \<^verbatim>\<open>addMessage\<close> only
  appends.  \<^verbatim>\<open>setSourceList\<close> leaves the messages alone.  \<^verbatim>\<open>replaceLastAssistant\<close>
  keeps every old message at its index with its role, and a message it does change
  has the role \<^verbatim>\<open>assistant\<close> and differs from the old one in content and timestamp
  only; in particular every user message stays as it is.  The same holds for all
  that \<^verbatim>\<open>sendQuery\<close> does to the transcript once its request has ended, whatever
  the outcome.
\<close>

theorem store_keeps_roles:
  "addMessage r c now m = m @ [\<lparr>role = r, content = c, time = Some now\<rparr>]
   \<and> historyKept m (addMessage r c now m)
   \<and> take (length m) (addMessage r c now m) = m
   \<and> messages (setSourceList l st) = messages st
   \<and> historyKept m (replaceLastAssistant c now m)
   \<and> (\<forall>i<length m. replaceLastAssistant c now m ! i \<noteq> m ! i \<longrightarrow>
         role (m ! i) = ''assistant''
         \<and> replaceLastAssistant c now m ! i = (m ! i)\<lparr>content := c, time := Some now\<rparr>)
   \<and> historyKept (messages st) (messages (sendQuery_settle k out t1 t2 st))"
proof -
  have a: "addMessage r c now m = m @ [\<lparr>role = r, content = c, time = Some now\<rparr>]"
    by (simp add: addMessage_def)
  have b: "\<forall>i<length m. replaceLastAssistant c now m ! i \<noteq> m ! i \<longrightarrow>
         role (m ! i) = ''assistant''
         \<and> replaceLastAssistant c now m ! i = (m ! i)\<lparr>content := c, time := Some now\<rparr>"
  proof -
    from replaceLastAssistant_cases [of m c now] show ?thesis
    proof
      assume "\<exists>i<length m. isPending (m ! i)
         \<and> replaceLastAssistant c now m = m[i := (m ! i)\<lparr>content := c, time := Some now\<rparr>]"
      then obtain i where i: "i < length m" "isPending (m ! i)"
        and r: "replaceLastAssistant c now m = m[i := (m ! i)\<lparr>content := c, time := Some now\<rparr>]"
        by blast
      from i have "role (m ! i) = ''assistant''" by (simp add: isPending_def)
      with i(1) show ?thesis unfolding r by (auto simp: nth_list_update)
    next
      assume "replaceLastAssistant c now m = m @ [\<lparr>role = ''assistant'', content = c, time = Some now\<rparr>]"
      then show ?thesis by (simp add: nth_append)
    qed
  qed
  show ?thesis
    unfolding a
    using b historyKept_append [of m] historyKept_replace [of m c now]
      historyKept_settle [of st k out t1 t2]
    by (simp add: setSourceList_def a)
qed

theorem store_keeps_roles_witness:
  "replaceLastAssistant ''<div>ok</div>'' ''10:02''
     [\<lparr>role = ''user'', content = ''<div>Thinking...</div>'', time = Some ''10:00''\<rparr>,
      \<lparr>role = ''assistant'', content = placeholder, time = Some ''10:01''\<rparr>] ! 0
   = \<lparr>role = ''user'', content = ''<div>Thinking...</div>'', time = Some ''10:00''\<rparr>
   \<and> role (replaceLastAssistant ''<div>ok</div>'' ''10:02''
     [\<lparr>role = ''user'', content = ''<div>Thinking...</div>'', time = Some ''10:00''\<rparr>,
      \<lparr>role = ''assistant'', content = placeholder, time = Some ''10:01''\<rparr>] ! 1)
     = ''assistant''"
proof -
  let ?m = "[\<lparr>role = ''user'', content = ''<div>Thinking...</div>'', time = Some ''10:00''\<rparr>,
      \<lparr>role = ''assistant'', content = placeholder, time = Some ''10:01''\<rparr>]"
  from store_keeps_roles [of "''user''" "''<div>ok</div>''" "''10:02''" ?m "[]" exampleIdle
      0 AbortError "''10:02''" "''10:02''"]
  have "historyKept ?m (replaceLastAssistant ''<div>ok</div>'' ''10:02'' ?m)" by blast
  then have all: "\<forall>i<length ?m.
      role (replaceLastAssistant ''<div>ok</div>'' ''10:02'' ?m ! i) = role (?m ! i)
      \<and> (role (?m ! i) \<noteq> ''assistant'' \<longrightarrow>
            replaceLastAssistant ''<div>ok</div>'' ''10:02'' ?m ! i = ?m ! i)"
    by (simp add: historyKept_def)
  have "0 < length ?m" and "1 < length ?m" by simp_all
  with all have
    "role (?m ! 0) \<noteq> ''assistant'' \<longrightarrow>
       replaceLastAssistant ''<div>ok</div>'' ''10:02'' ?m ! 0 = ?m ! 0"
    and "role (replaceLastAssistant ''<div>ok</div>'' ''10:02'' ?m ! 1) = role (?m ! 1)"
    by blast+
  then show ?thesis by simp
qed

section \<open>Markup\<close>

text \<open>
  Claim C10.  Whatever its argument, the result of \<^verbatim>\<open>escapeHtml\<close> holds none of the
  characters \<^verbatim>\<open><\<close>, \<^verbatim>\<open>>\<close>, double quote and single quote.  On an absent and on an
  empty argument the result is empty.  The result is built character by character,
  each of \<^verbatim>\<open>&\<close>, \<^verbatim>\<open><\<close>, \<^verbatim>\<open>>\<close>, double quote and single quote giving its entity and
  every other character itself.  The user message that \<^verbatim>\<open>sendQuery\<close> stores for a
  question \<open>q\<close> is \<^verbatim>\<open><div>\<close>, the escaped \<open>q\<close>, \<^verbatim>\<open></div>\<close>, so between the two tags
  of the client no tag character of the user's is left.
\<close>

theorem escapeHtml_no_markup:
  "set (escapeHtml t) \<inter> {CHR ''<'', CHR ''>'', CHR 0x22, CHR 0x27} = {}
   \<and> escapeHtml None = [] \<and> escapeHtml (Some []) = []
   \<and> escapeHtml (Some (c # s)) = escapeChar c @ escapeHtml (Some s)
   \<and> escapeChar CHR ''&'' = ''&amp;'' \<and> escapeChar CHR ''<'' = ''&lt;''
   \<and> escapeChar CHR ''>'' = ''&gt;'' \<and> escapeChar CHR 0x22 = ''&quot;''
   \<and> escapeChar CHR 0x27 = ''&#039;''
   \<and> (c \<notin> {CHR ''&'', CHR ''<'', CHR ''>'', CHR 0x22, CHR 0x27} \<longrightarrow> escapeChar c = [c])
   \<and> (q \<noteq> [] \<and> \<not> sending st \<longrightarrow>
        content (messages (fst (sendQuery_begin q t1 t2 st)) ! length (messages st))
        = ''<div>'' @ escapeHtml (Some q) @ ''</div>'')"
proof -
  have "set (escapeHtml t) \<inter> {CHR ''<'', CHR ''>'', CHR 0x22, CHR 0x27} = {}"
    by (rule escapeHtml_clean)
  moreover have "escapeHtml None = [] \<and> escapeHtml (Some []) = []"
    by (simp add: escapeHtml_def)
  moreover have "escapeHtml (Some (c # s)) = escapeChar c @ escapeHtml (Some s)"
    by (simp add: escapeHtml_Some)
  moreover have "escapeChar CHR ''&'' = ''&amp;'' \<and> escapeChar CHR ''<'' = ''&lt;''
   \<and> escapeChar CHR ''>'' = ''&gt;'' \<and> escapeChar CHR 0x22 = ''&quot;''
   \<and> escapeChar CHR 0x27 = ''&#039;''"
    by (simp add: escapeChar_def)
  moreover have "c \<notin> {CHR ''&'', CHR ''<'', CHR ''>'', CHR 0x22, CHR 0x27} \<longrightarrow> escapeChar c = [c]"
    using escapeChar_plain [of c] by blast
  moreover have "q \<noteq> [] \<and> \<not> sending st \<longrightarrow>
        content (messages (fst (sendQuery_begin q t1 t2 st)) ! length (messages st))
        = ''<div>'' @ escapeHtml (Some q) @ ''</div>''"
    by (simp add: sendQuery_begin_run)
  ultimately show ?thesis by blast
qed

theorem escapeHtml_no_markup_witness:
  "set (escapeHtml (Some (''<b a='' @ [CHR 0x22, CHR 0x27] @ ''>&''))) \<inter> {CHR ''<'', CHR ''>'', CHR 0x22, CHR 0x27} = {}
   \<and> escapeHtml (Some (''<b a='' @ [CHR 0x22, CHR 0x27] @ ''>&'')) = ''&lt;b a=&quot;&#039;&gt;&amp;''
   \<and> content (messages (fst (sendQuery_begin ''<i>'' ''10:00'' ''10:00'' exampleIdle)) ! 0)
       = ''<div>&lt;i&gt;</div>''"
proof -
  have idle: "''<i>'' \<noteq> [] \<and> \<not> sending exampleIdle" "length (messages exampleIdle) = 0"
    by (simp_all add: exampleIdle_def)
  from escapeHtml_no_markup [of "Some (''<b a='' @ [CHR 0x22, CHR 0x27] @ ''>&'')" "CHR ''x''" "[]"
      "''<i>''" exampleIdle "''10:00''" "''10:00''"] idle
  have "set (escapeHtml (Some (''<b a='' @ [CHR 0x22, CHR 0x27] @ ''>&''))) \<inter> {CHR ''<'', CHR ''>'', CHR 0x22, CHR 0x27} = {}"
    and "content (messages (fst (sendQuery_begin ''<i>'' ''10:00'' ''10:00'' exampleIdle)) ! 0)
       = ''<div>'' @ escapeHtml (Some ''<i>'') @ ''</div>''"
    by simp_all
  moreover have "escapeHtml (Some (''<b a='' @ [CHR 0x22, CHR 0x27] @ ''>&'')) = ''&lt;b a=&quot;&#039;&gt;&amp;''"
    by (simp add: escapeHtml_def escapeChar_def)
  moreover have "escapeHtml (Some ''<i>'') = ''&lt;i&gt;''"
    by (simp add: escapeHtml_def escapeChar_def)
  ultimately show ?thesis by simp
qed

text \<open>
  Claim C4.  Stripping the markup from the stored content of a user message is to
  give the question back as it was typed: the result goes to the clipboard and into
  the edit buffer.  The code does not do so for a question with one of the
  characters that \<^verbatim>\<open>escapeHtml\<close> replaces.  \<^verbatim>\<open>stripHtml\<close> removes the two tags and
  leaves the entities: for the question \<^verbatim>\<open>a&b\<close> it returns \<^verbatim>\<open>a&amp;b\<close>, for a
  question with an apostrophe the entity of the apostrophe, and the edit buffer that
  \<^verbatim>\<open>handleEditClick\<close> fills from the stored message holds the entity too.
\<close>

theorem stored_question_not_recovered:
  "stripHtml (Some (''<div>'' @ escapeHtml (Some ''a&b'') @ ''</div>'')) = ''a&amp;b''
   \<and> stripHtml (Some (''<div>'' @ escapeHtml (Some ''a&b'') @ ''</div>'')) \<noteq> ''a&b''
   \<and> stripHtml (Some (''<div>'' @ escapeHtml (Some (''what'' @ [CHR 0x27] @ ''s up'')) @ ''</div>''))
       = ''what&#039;s up''
   \<and> editingText
         (handleEditClick 0
            (messages (fst (sendQuery_begin ''a&b'' ''10:00'' ''10:01'' exampleIdle)) ! 0)
            exampleIdle)
       = ''a&amp;b''"
  by (simp add: stripHtml_def escapeHtml_def escapeChar_def handleEditClick_def
      sendQuery_begin_run exampleIdle_def)

text \<open>
  The extent of the defect: what is returned is the escaped question, which is the
  question itself only when none of the five characters is in it.
\<close>

lemma stripHtml_of_stored:
  "stripHtml (Some (''<div>'' @ escapeHtml (Some q) @ ''</div>'')) = escapeHtml (Some q)
   \<and> (stripHtml (Some (''<div>'' @ escapeHtml (Some q) @ ''</div>'')) = q
        \<longleftrightarrow> set q \<inter> {CHR ''&'', CHR ''<'', CHR ''>'', CHR 0x22, CHR 0x27} = {})"
proof -
  have a: "stripHtml (Some (''<div>'' @ escapeHtml (Some q) @ ''</div>'')) = escapeHtml (Some q)"
    by (rule stripHtml_div)
  show ?thesis unfolding a using escapeHtml_fixed_iff [of q] by blast
qed

section \<open>Submitting a question\<close>

text \<open>
  Claim C2.  For a non-empty question \<open>q\<close> and a controller that is not sending, the
  part of \<^verbatim>\<open>sendQuery\<close> before the network call resolves leaves the old messages
  as they are and appends exactly two: the user message with the escaped \<open>q\<close>, and
  right after it the assistant message with the loading markup, which the scan of
  \<^verbatim>\<open>replaceLastAssistant\<close> recognises as pending.  One request is issued, and the
  Source list is not touched.
\<close>

theorem sendQuery_begin_appends:
  "q \<noteq> [] \<Longrightarrow> \<not> sending st \<Longrightarrow>
   messages (fst (sendQuery_begin q t1 t2 st))
     = messages st @
       [\<lparr>role = ''user'', content = ''<div>'' @ escapeHtml (Some q) @ ''</div>'', time = Some t1\<rparr>,
        \<lparr>role = ''assistant'', content = placeholder, time = Some t2\<rparr>]
   \<and> isPending \<lparr>role = ''assistant'', content = placeholder, time = Some t2\<rparr>
   \<and> snd (sendQuery_begin q t1 t2 st) = Some (nextController st)
   \<and> sources (fst (sendQuery_begin q t1 t2 st)) = sources st"
  by (simp add: sendQuery_begin_run placeholder_pending)

theorem sendQuery_begin_appends_witness:
  "messages (fst (sendQuery_begin ''a<b'' ''10:00'' ''10:01'' exampleIdle))
     = [\<lparr>role = ''user'', content = ''<div>a&lt;b</div>'', time = Some ''10:00''\<rparr>,
        \<lparr>role = ''assistant'', content = placeholder, time = Some ''10:01''\<rparr>]
   \<and> snd (sendQuery_begin ''a<b'' ''10:00'' ''10:01'' exampleIdle) = Some 0"
proof -
  have "''a<b'' \<noteq> []" and "\<not> sending exampleIdle" by (simp_all add: exampleIdle_def)
  from sendQuery_begin_appends [OF this, of "''10:00''" "''10:01''"]
  show ?thesis by (simp add: exampleIdle_def escapeHtml_def escapeChar_def)
qed

text \<open>
  Claim C3, as stated: a question submitted while another is pending starts a second
  request with a token of its own, the controller not holding back a submission on a
  pending one.  After the first submission the flag is set; a second submission by a
  handler of the render that follows holds the set flag and issues no request: the
  token list still holds the one token and the transcript the two messages of the
  first.
\<close>

theorem pending_submit_counterexample:
  "sending (fst (sendQuery_begin ''first'' ''10:00'' ''10:00'' exampleIdle))
   \<and> snd (sendQuery_begin ''second'' ''10:01'' ''10:01''
            (fst (sendQuery_begin ''first'' ''10:00'' ''10:00'' exampleIdle))) = None
   \<and> abortRef (fst (sendQuery_begin ''second'' ''10:01'' ''10:01''
            (fst (sendQuery_begin ''first'' ''10:00'' ''10:00'' exampleIdle)))) = [0]
   \<and> length (messages (fst (sendQuery_begin ''second'' ''10:01'' ''10:01''
            (fst (sendQuery_begin ''first'' ''10:00'' ''10:00'' exampleIdle))))) = 2"
  by (simp add: sendQuery_begin_def sendQuery_captured_def exampleIdle_def setMessages_def
      addMessage_def Let_def)

text \<open>
  Claim C3, amended.  Whether a submission made while a query is pending starts a
  request depends on the flag that the submitting handler holds.  A handler that
  holds the set flag returns at the guard: the state is unchanged and no request is
  issued.  A handler that still holds the clear flag, one of the render from before
  the flag was set, starts a request for a non-empty question whatever the state:
  the two messages are appended, the flag is set, and the request has a token of its
  own, put at the end of the token list and different from every token there, so
  that several requests can be outstanding at once.
\<close>

theorem sendQuery_guard:
  "(sendingSeen \<longrightarrow> sendQuery_captured sendingSeen q t1 t2 st = (st, None))
   \<and> (q \<noteq> [] \<and> \<not> sendingSeen \<longrightarrow>
        snd (sendQuery_captured sendingSeen q t1 t2 st) = Some (nextController st)
        \<and> abortRef (fst (sendQuery_captured sendingSeen q t1 t2 st))
            = abortRef st @ [nextController st]
        \<and> nextController (fst (sendQuery_captured sendingSeen q t1 t2 st))
            = Suc (nextController st)
        \<and> sending (fst (sendQuery_captured sendingSeen q t1 t2 st))
        \<and> messages (fst (sendQuery_captured sendingSeen q t1 t2 st))
            = messages st @
              [\<lparr>role = ''user'', content = ''<div>'' @ escapeHtml (Some q) @ ''</div>'',
                 time = Some t1\<rparr>,
               \<lparr>role = ''assistant'', content = placeholder, time = Some t2\<rparr>])
   \<and> ((\<forall>c\<in>set (abortRef st). c < nextController st) \<longrightarrow>
        nextController st \<notin> set (abortRef st)
        \<and> (\<forall>c\<in>set (abortRef (fst (sendQuery_captured sendingSeen q t1 t2 st))).
              c < nextController (fst (sendQuery_captured sendingSeen q t1 t2 st))))
   \<and> sendQuery_begin q t1 t2 st = sendQuery_captured (sending st) q t1 t2 st"
proof -
  have drop: "sendingSeen \<longrightarrow> sendQuery_captured sendingSeen q t1 t2 st = (st, None)"
    by (simp add: sendQuery_captured_drop)
  have run: "q \<noteq> [] \<and> \<not> sendingSeen \<longrightarrow>
        snd (sendQuery_captured sendingSeen q t1 t2 st) = Some (nextController st)
        \<and> abortRef (fst (sendQuery_captured sendingSeen q t1 t2 st))
            = abortRef st @ [nextController st]
        \<and> nextController (fst (sendQuery_captured sendingSeen q t1 t2 st))
            = Suc (nextController st)
        \<and> sending (fst (sendQuery_captured sendingSeen q t1 t2 st))
        \<and> messages (fst (sendQuery_captured sendingSeen q t1 t2 st))
            = messages st @
              [\<lparr>role = ''user'', content = ''<div>'' @ escapeHtml (Some q) @ ''</div>'',
                 time = Some t1\<rparr>,
               \<lparr>role = ''assistant'', content = placeholder, time = Some t2\<rparr>]"
    by (simp add: sendQuery_captured_run)
  have fresh: "(\<forall>c\<in>set (abortRef st). c < nextController st) \<longrightarrow>
        nextController st \<notin> set (abortRef st)
        \<and> (\<forall>c\<in>set (abortRef (fst (sendQuery_captured sendingSeen q t1 t2 st))).
              c < nextController (fst (sendQuery_captured sendingSeen q t1 t2 st)))"
  proof (cases "q = [] \<or> sendingSeen")
    case True
    then have "sendQuery_captured sendingSeen q t1 t2 st = (st, None)"
      by (simp add: sendQuery_captured_def)
    then show ?thesis by auto
  next
    case False
    then show ?thesis by (auto simp: sendQuery_captured_run)
  qed
  have "sendQuery_begin q t1 t2 st = sendQuery_captured (sending st) q t1 t2 st"
    by (simp add: sendQuery_begin_def)
  with drop run fresh show ?thesis by blast
qed

theorem sendQuery_guard_witness:
  "sending (fst (sendQuery_begin ''first'' ''10:00'' ''10:00'' exampleIdle))
   \<and> snd (sendQuery_captured False ''second'' ''10:01'' ''10:01''
            (fst (sendQuery_begin ''first'' ''10:00'' ''10:00'' exampleIdle))) = Some 1
   \<and> abortRef (fst (sendQuery_captured False ''second'' ''10:01'' ''10:01''
            (fst (sendQuery_begin ''first'' ''10:00'' ''10:00'' exampleIdle)))) = [0, 1]
   \<and> length (messages (fst (sendQuery_captured False ''second'' ''10:01'' ''10:01''
            (fst (sendQuery_begin ''first'' ''10:00'' ''10:00'' exampleIdle))))) = 4
   \<and> sendQuery_captured True ''second'' ''10:01'' ''10:01''
            (fst (sendQuery_begin ''first'' ''10:00'' ''10:00'' exampleIdle))
       = (fst (sendQuery_begin ''first'' ''10:00'' ''10:00'' exampleIdle), None)"
proof -
  let ?p = "fst (sendQuery_begin ''first'' ''10:00'' ''10:00'' exampleIdle)"
  have p: "?p = exampleIdle\<lparr>messages :=
                   [\<lparr>role = ''user'', content = ''<div>'' @ escapeHtml (Some ''first'') @ ''</div>'',
                      time = Some ''10:00''\<rparr>,
                    \<lparr>role = ''assistant'', content = placeholder, time = Some ''10:00''\<rparr>],
                sending := True, abortRef := [0], nextController := 1\<rparr>"
    by (simp add: sendQuery_begin_run exampleIdle_def)
  have h: "''second'' \<noteq> [] \<and> \<not> False" by simp
  have inv: "\<forall>c\<in>set (abortRef ?p). c < nextController ?p" by (simp add: p)
  from sendQuery_guard [of False "''second''" "''10:01''" "''10:01''" ?p] h inv
  have "snd (sendQuery_captured False ''second'' ''10:01'' ''10:01'' ?p) = Some (nextController ?p)"
    and "abortRef (fst (sendQuery_captured False ''second'' ''10:01'' ''10:01'' ?p))
            = abortRef ?p @ [nextController ?p]"
    and "messages (fst (sendQuery_captured False ''second'' ''10:01'' ''10:01'' ?p))
            = messages ?p @
              [\<lparr>role = ''user'', content = ''<div>'' @ escapeHtml (Some ''second'') @ ''</div>'',
                 time = Some ''10:01''\<rparr>,
               \<lparr>role = ''assistant'', content = placeholder, time = Some ''10:01''\<rparr>]"
    and "nextController ?p \<notin> set (abortRef ?p)"
    by blast+
  moreover from sendQuery_guard [of True "''second''" "''10:01''" "''10:01''" ?p]
  have "sendQuery_captured True ''second'' ''10:01'' ''10:01'' ?p = (?p, None)"
    by blast
  moreover have "sending ?p" "nextController ?p = 1" "abortRef ?p = [0]"
    "length (messages ?p) = 2"
    by (simp_all add: p)
  ultimately show ?thesis by simp
qed

section \<open>Reconciling the outcome of a request\<close>

text \<open>
  Claim C1, as stated: for every response with an answer field \<open>X\<close> the placeholder's
  content becomes the rendered \<open>X\<close>.  It fails for the response whose answer is the
  empty string: the test \<^verbatim>\<open>if (data.answer)\<close> is false for it, and the placeholder
  that the submission appended is still the last message.
\<close>

theorem empty_answer_counterexample:
  "messages (sendQuery_settle 0
       (Resolved \<lparr>data_answer = Some [], data_markdown = None, data_sources = Some [],
          data_results = None\<rparr>)
       ''10:02'' ''10:03'' (fst (sendQuery_begin ''hi'' ''10:00'' ''10:01'' exampleIdle)))
   = [\<lparr>role = ''user'', content = ''<div>hi</div>'', time = Some ''10:00''\<rparr>,
      \<lparr>role = ''assistant'', content = placeholder, time = Some ''10:01''\<rparr>]
   \<and> placeholder \<noteq> ''<div>'' @ escapeHtml (Some []) @ ''</div>''"
  by (simp add: settle_messages_resolved sendQuery_begin_run exampleIdle_def escapeHtml_def
      escapeChar_def placeholder_def)

text \<open>
  Claim C1, amended.  For a response whose answer field is a non-empty string \<open>a\<close>:
  the most recent pending assistant message gets the content \<^verbatim>\<open><div>\<close>, escaped \<open>a\<close>,
  \<^verbatim>\<open></div>\<close> and a new timestamp, where it stands; after a submission this is the
  placeholder that the submission appended.  A markdown field that is present and
  non-empty adds one more assistant message at the end.  The Source list becomes the
  sources field when it is present, otherwise the results field when that is present,
  otherwise the empty list.
\<close>

theorem answer_replaces_placeholder:
  "a \<noteq> [] \<Longrightarrow> data_answer d = Some a \<Longrightarrow>
   (messages p = pre @ ph # post \<and> isPending ph \<and> (\<forall>x\<in>set post. \<not> isPending x) \<longrightarrow>
      messages (sendQuery_settle c (Resolved d) t3 t4 p)
      = pre @ ph\<lparr>content := ''<div>'' @ escapeHtml (Some a) @ ''</div>'', time := Some t3\<rparr> # post
        @ (case data_markdown d of
             None \<Rightarrow> []
           | Some md \<Rightarrow> if md = [] then []
                        else [\<lparr>role = ''assistant'',
                                content = ''<pre>'' @ escapeHtml (Some (cleanMarkdown md)) @ ''</pre>'',
                                time = Some t4\<rparr>]))
   \<and> (q \<noteq> [] \<and> \<not> sending st \<and> p = fst (sendQuery_begin q t1 t2 st) \<longrightarrow>
      messages (sendQuery_settle c (Resolved d) t3 t4 p)
      = messages st @
        [\<lparr>role = ''user'', content = ''<div>'' @ escapeHtml (Some q) @ ''</div>'', time = Some t1\<rparr>,
         \<lparr>role = ''assistant'', content = ''<div>'' @ escapeHtml (Some a) @ ''</div>'', time = Some t3\<rparr>]
        @ (case data_markdown d of
             None \<Rightarrow> []
           | Some md \<Rightarrow> if md = [] then []
                        else [\<lparr>role = ''assistant'',
                                content = ''<pre>'' @ escapeHtml (Some (cleanMarkdown md)) @ ''</pre>'',
                                time = Some t4\<rparr>]))
   \<and> (data_sources d = Some l \<longrightarrow> sources (sendQuery_settle c (Resolved d) t3 t4 p) = l)
   \<and> (data_sources d = None \<and> data_results d = Some l \<longrightarrow>
        sources (sendQuery_settle c (Resolved d) t3 t4 p) = l)
   \<and> (data_sources d = None \<and> data_results d = None \<longrightarrow>
        sources (sendQuery_settle c (Resolved d) t3 t4 p) = [])"
proof -
  assume a: "a \<noteq> []" and d: "data_answer d = Some a"
  let ?r = "''<div>'' @ escapeHtml (Some a) @ ''</div>''"
  let ?extra = "(case data_markdown d of
             None \<Rightarrow> []
           | Some md \<Rightarrow> if md = [] then []
                        else [\<lparr>role = ''assistant'',
                                content = ''<pre>'' @ escapeHtml (Some (cleanMarkdown md)) @ ''</pre>'',
                                time = Some t4\<rparr>])"
  have msgs: "messages (sendQuery_settle c (Resolved d) t3 t4 p)
              = replaceLastAssistant ?r t3 (messages p) @ ?extra"
    using a d by (simp add: settle_messages_resolved)
  have p1: "messages p = pre @ ph # post \<and> isPending ph \<and> (\<forall>x\<in>set post. \<not> isPending x) \<longrightarrow>
      messages (sendQuery_settle c (Resolved d) t3 t4 p)
      = pre @ ph\<lparr>content := ?r, time := Some t3\<rparr> # post @ ?extra"
    unfolding msgs using replaceLastAssistant_split [of ph post ?r t3 pre] by auto
  have p2: "q \<noteq> [] \<and> \<not> sending st \<and> p = fst (sendQuery_begin q t1 t2 st) \<longrightarrow>
      messages (sendQuery_settle c (Resolved d) t3 t4 p)
      = messages st @
        [\<lparr>role = ''user'', content = ''<div>'' @ escapeHtml (Some q) @ ''</div>'', time = Some t1\<rparr>,
         \<lparr>role = ''assistant'', content = ?r, time = Some t3\<rparr>] @ ?extra"
    unfolding msgs using begin_then_replace [of q st ?r t3 t1 t2] by auto
  have p3: "(data_sources d = Some l \<longrightarrow> sources (sendQuery_settle c (Resolved d) t3 t4 p) = l)
   \<and> (data_sources d = None \<and> data_results d = Some l \<longrightarrow>
        sources (sendQuery_settle c (Resolved d) t3 t4 p) = l)
   \<and> (data_sources d = None \<and> data_results d = None \<longrightarrow>
        sources (sendQuery_settle c (Resolved d) t3 t4 p) = [])"
    by (simp add: settle_sources_resolved)
  from p1 p2 p3 show ?thesis by blast
qed


theorem answer_replaces_placeholder_witness:
  "messages (sendQuery_settle 0
       (Resolved \<lparr>data_answer = Some ''2 < 3'', data_markdown = None,
          data_sources = Some [\<lparr>name = Some ''a.txt'', path = Some ''/d/a.txt'',
              size_bytes = Some 10, reason = None, reason_detail = None\<rparr>],
          data_results = Some []\<rparr>)
       ''10:02'' ''10:03'' (fst (sendQuery_begin ''hi'' ''10:00'' ''10:01'' exampleIdle)))
   = [\<lparr>role = ''user'', content = ''<div>hi</div>'', time = Some ''10:00''\<rparr>,
      \<lparr>role = ''assistant'', content = ''<div>2 &lt; 3</div>'', time = Some ''10:02''\<rparr>]
   \<and> sources (sendQuery_settle 0
       (Resolved \<lparr>data_answer = Some ''2 < 3'', data_markdown = None,
          data_sources = Some [\<lparr>name = Some ''a.txt'', path = Some ''/d/a.txt'',
              size_bytes = Some 10, reason = None, reason_detail = None\<rparr>],
          data_results = Some []\<rparr>)
       ''10:02'' ''10:03'' (fst (sendQuery_begin ''hi'' ''10:00'' ''10:01'' exampleIdle)))
     = [\<lparr>name = Some ''a.txt'', path = Some ''/d/a.txt'',
              size_bytes = Some 10, reason = None, reason_detail = None\<rparr>]
   \<and> sources (sendQuery_settle 0
       (Resolved \<lparr>data_answer = Some ''ok'', data_markdown = None, data_sources = None,
          data_results = Some [\<lparr>name = Some ''b.txt'', path = Some ''/d/b.txt'',
              size_bytes = Some 20, reason = None, reason_detail = None\<rparr>]\<rparr>)
       ''10:02'' ''10:03'' exampleIdle)
     = [\<lparr>name = Some ''b.txt'', path = Some ''/d/b.txt'',
              size_bytes = Some 20, reason = None, reason_detail = None\<rparr>]
   \<and> sources (sendQuery_settle 0
       (Resolved \<lparr>data_answer = Some ''ok'', data_markdown = None, data_sources = None,
          data_results = None\<rparr>)
       ''10:02'' ''10:03'' (exampleIdle\<lparr>sources := [\<lparr>name = Some ''b.txt'', path = Some ''/d/b.txt'',
              size_bytes = Some 20, reason = None, reason_detail = None\<rparr>]\<rparr>))
     = []"
proof -
  let ?a = "\<lparr>name = Some ''a.txt'', path = Some ''/d/a.txt'',
              size_bytes = Some 10, reason = None, reason_detail = None\<rparr>"
  let ?b = "\<lparr>name = Some ''b.txt'', path = Some ''/d/b.txt'',
              size_bytes = Some 20, reason = None, reason_detail = None\<rparr>"
  let ?d1 = "\<lparr>data_answer = Some ''2 < 3'', data_markdown = None,
          data_sources = Some [?a], data_results = Some []\<rparr>"
  let ?d2 = "\<lparr>data_answer = Some ''ok'', data_markdown = None, data_sources = None,
          data_results = Some [?b]\<rparr>"
  let ?d3 = "\<lparr>data_answer = Some ''ok'', data_markdown = None, data_sources = None,
          data_results = None :: source list option\<rparr>"
  let ?p = "fst (sendQuery_begin ''hi'' ''10:00'' ''10:01'' exampleIdle)"
  have n1: "''2 < 3'' \<noteq> []" and n2: "''ok'' \<noteq> []" by simp_all
  have a1: "data_answer ?d1 = Some ''2 < 3''" and a2: "data_answer ?d2 = Some ''ok''"
    and a3: "data_answer ?d3 = Some ''ok''" by simp_all
  have h: "''hi'' \<noteq> [] \<and> \<not> sending exampleIdle \<and> ?p = fst (sendQuery_begin ''hi'' ''10:00'' ''10:01'' exampleIdle)"
    by (simp add: exampleIdle_def)
  from answer_replaces_placeholder [OF n1 a1, of ?p "[]" "\<lparr>role = ''assistant'', content = placeholder, time = None\<rparr>" "[]"
      0 "''10:02''" "''10:03''" "''hi''" exampleIdle "''10:00''" "''10:01''" "[?a]"] h
  have "messages (sendQuery_settle 0 (Resolved ?d1) ''10:02'' ''10:03'' ?p)
      = messages exampleIdle @
        [\<lparr>role = ''user'', content = ''<div>'' @ escapeHtml (Some ''hi'') @ ''</div>'', time = Some ''10:00''\<rparr>,
         \<lparr>role = ''assistant'', content = ''<div>'' @ escapeHtml (Some ''2 < 3'') @ ''</div>'', time = Some ''10:02''\<rparr>]"
    and "sources (sendQuery_settle 0 (Resolved ?d1) ''10:02'' ''10:03'' ?p) = [?a]"
    by simp_all
  moreover have "escapeHtml (Some ''hi'') = ''hi''" and "escapeHtml (Some ''2 < 3'') = ''2 &lt; 3''"
    by (simp_all add: escapeHtml_def escapeChar_def)
  moreover from answer_replaces_placeholder [OF n2 a2, of exampleIdle "[]" "\<lparr>role = ''assistant'', content = placeholder, time = None\<rparr>" "[]"
      0 "''10:02''" "''10:03''" "''hi''" exampleIdle "''10:00''" "''10:01''" "[?b]"]
  have "sources (sendQuery_settle 0 (Resolved ?d2) ''10:02'' ''10:03'' exampleIdle) = [?b]"
    by simp
  moreover from answer_replaces_placeholder [OF n2 a3, of "exampleIdle\<lparr>sources := [?b]\<rparr>" "[]" "\<lparr>role = ''assistant'', content = placeholder, time = None\<rparr>" "[]"
      0 "''10:02''" "''10:03''" "''hi''" exampleIdle "''10:00''" "''10:01''" "[]"]
  have "sources (sendQuery_settle 0 (Resolved ?d3) ''10:02'' ''10:03'' (exampleIdle\<lparr>sources := [?b]\<rparr>)) = []"
    by simp
  ultimately show ?thesis by (simp add: exampleIdle_def)
qed

text \<open>
  Claim C6.  For a response without an answer field nothing is done to the messages
  that are there, the placeholder among them: the transcript is the old one, with
  one more message at the end when the response has a non-empty markdown field.  The
  Source list is replaced all the same, by the sources field, else the results
  field, else the empty list.
\<close>

theorem no_answer_keeps_placeholder:
  "data_answer d = None \<Longrightarrow>
   messages (sendQuery_settle c (Resolved d) t3 t4 p)
   = messages p @
     (case data_markdown d of
        None \<Rightarrow> []
      | Some md \<Rightarrow> if md = [] then []
                   else [\<lparr>role = ''assistant'',
                           content = ''<pre>'' @ escapeHtml (Some (cleanMarkdown md)) @ ''</pre>'',
                           time = Some t4\<rparr>])
   \<and> take (length (messages p)) (messages (sendQuery_settle c (Resolved d) t3 t4 p)) = messages p
   \<and> sources (sendQuery_settle c (Resolved d) t3 t4 p)
     = (case data_sources d of
          Some l \<Rightarrow> l
        | None \<Rightarrow> (case data_results d of Some l \<Rightarrow> l | None \<Rightarrow> []))"
  by (simp add: settle_messages_resolved settle_sources_resolved)

theorem no_answer_keeps_placeholder_witness:
  "messages (sendQuery_settle 0
       (Resolved \<lparr>data_answer = None, data_markdown = None, data_sources = None,
          data_results = Some [\<lparr>name = Some ''a.txt'', path = Some ''/d/a.txt'',
              size_bytes = Some 10, reason = None, reason_detail = None\<rparr>]\<rparr>)
       ''10:02'' ''10:03'' (fst (sendQuery_begin ''hi'' ''10:00'' ''10:01'' exampleIdle)))
   = [\<lparr>role = ''user'', content = ''<div>hi</div>'', time = Some ''10:00''\<rparr>,
      \<lparr>role = ''assistant'', content = placeholder, time = Some ''10:01''\<rparr>]
   \<and> sources (sendQuery_settle 0
       (Resolved \<lparr>data_answer = None, data_markdown = None, data_sources = None,
          data_results = Some [\<lparr>name = Some ''a.txt'', path = Some ''/d/a.txt'',
              size_bytes = Some 10, reason = None, reason_detail = None\<rparr>]\<rparr>)
       ''10:02'' ''10:03'' (fst (sendQuery_begin ''hi'' ''10:00'' ''10:01'' exampleIdle)))
     = [\<lparr>name = Some ''a.txt'', path = Some ''/d/a.txt'',
              size_bytes = Some 10, reason = None, reason_detail = None\<rparr>]"
proof -
  let ?d = "\<lparr>data_answer = None, data_markdown = None, data_sources = None,
          data_results = Some [\<lparr>name = Some ''a.txt'', path = Some ''/d/a.txt'',
              size_bytes = Some 10, reason = None, reason_detail = None\<rparr>]\<rparr>"
  have h: "data_answer ?d = None" by simp
  have m: "messages (fst (sendQuery_begin ''hi'' ''10:00'' ''10:01'' exampleIdle))
      = [\<lparr>role = ''user'', content = ''<div>hi</div>'', time = Some ''10:00''\<rparr>,
      \<lparr>role = ''assistant'', content = placeholder, time = Some ''10:01''\<rparr>]"
    by (simp add: sendQuery_begin_run exampleIdle_def escapeHtml_def escapeChar_def)
  from no_answer_keeps_placeholder [OF h, of 0 "''10:02''" "''10:03''"
      "fst (sendQuery_begin ''hi'' ''10:00'' ''10:01'' exampleIdle)"] m
  show ?thesis by simp
qed

text \<open>
  Claim C5, as stated: cancelling puts the cancellation notice in the place of the
  pending placeholder.  It fails when an assistant message that carries the marker
  was appended after the placeholder.  Below, a question is pending, the panel
  opens the file \<^verbatim>\<open>/d/Thinking.pdf\<close> and \<^verbatim>\<open>doOpen\<close> appends its notice, then the
  request is cancelled: the notice of the cancellation takes the place of the
  notice of \<^verbatim>\<open>doOpen\<close>, and the placeholder stays as it was.
\<close>

theorem cancel_misses_placeholder_counterexample:
  "messages (sendQuery_settle 0 AbortError ''10:03'' ''10:03''
       (cancelRequest
          (doOpen ''/d/Thinking.pdf'' None ''10:02''
             (fst (sendQuery_begin ''hi'' ''10:00'' ''10:01'' exampleIdle)))))
   = [\<lparr>role = ''user'', content = ''<div>hi</div>'', time = Some ''10:00''\<rparr>,
      \<lparr>role = ''assistant'', content = placeholder, time = Some ''10:01''\<rparr>,
      \<lparr>role = ''assistant'', content = cancelNotice, time = Some ''10:03''\<rparr>]
   \<and> openedNotice ''/d/Thinking.pdf''
       = ''<div class='' @ [CHR 0x27] @ ''success'' @ [CHR 0x27] @ ''>Opened: /d/Thinking.pdf</div>''"
proof -
  let ?u = "\<lparr>role = ''user'', content = ''<div>hi</div>'', time = Some ''10:00''\<rparr>"
  let ?ph = "\<lparr>role = ''assistant'', content = placeholder, time = Some ''10:01''\<rparr>"
  let ?o = "\<lparr>role = ''assistant'', content = openedNotice ''/d/Thinking.pdf'', time = Some ''10:02''\<rparr>"
  have o: "openedNotice ''/d/Thinking.pdf''
       = ''<div class='' @ [CHR 0x27] @ ''success'' @ [CHR 0x27] @ ''>Opened: /d/Thinking.pdf</div>''"
    by (simp add: openedNotice_def escapeHtml_def escapeChar_def)
  have m: "messages (cancelRequest
          (doOpen ''/d/Thinking.pdf'' None ''10:02''
             (fst (sendQuery_begin ''hi'' ''10:00'' ''10:01'' exampleIdle))))
        = [?u, ?ph] @ ?o # []"
    by (simp add: cancelRequest_def doOpen_def setMessages_def addMessage_def
        sendQuery_begin_run exampleIdle_def escapeHtml_def escapeChar_def)
  have po: "isPending ?o" unfolding o by (simp add: isPending_def)
  have "replaceLastAssistant cancelNotice ''10:03'' ([?u, ?ph] @ ?o # [])
        = [?u, ?ph] @ ?o\<lparr>content := cancelNotice, time := Some ''10:03''\<rparr> # []"
    using po by (rule replaceLastAssistant_split) simp
  with m o show ?thesis by (simp add: settle_abort)
qed

text \<open>
  Claim C5, amended.  \<^verbatim>\<open>cancelRequest\<close> calls \<^verbatim>\<open>abort()\<close> on every controller of
  the list, empties the list and clears the sending flag; it touches neither the
  messages nor the Source list.  The aborted \<^verbatim>\<open>fetch\<close> rejects with \<^verbatim>\<open>AbortError\<close>,
  and \<^verbatim>\<open>sendQuery\<close> then writes the notice
  \<^verbatim>\<open><div class='muted'>Request canceled.</div>\<close>
  over the content of the most recent assistant message that carries the pending
  marker; the message so rewritten carries the marker no longer.  That message is the placeholder of the request when no assistant message
  after the placeholder carries the marker, as is the case when the cancellation
  follows the submission with nothing appended in between.  When no message carries
  the marker the notice is appended.  The flag stays clear, and \<^verbatim>\<open>setSourceList\<close>
  is not called on the way: the Source list is the one from before.
\<close>

theorem cancel_pending:
  "set (abortRef p) \<subseteq> set (aborted (cancelRequest p))
   \<and> abortRef (cancelRequest p) = []
   \<and> \<not> sending (cancelRequest p)
   \<and> sources (cancelRequest p) = sources p
   \<and> messages (cancelRequest p) = messages p
   \<and> sources (sendQuery_settle c AbortError t3 t4 (cancelRequest p)) = sources p
   \<and> \<not> sending (sendQuery_settle c AbortError t3 t4 (cancelRequest p))
   \<and> abortRef (sendQuery_settle c AbortError t3 t4 (cancelRequest p)) = []
   \<and> cancelNotice
       = ''<div class='' @ [CHR 0x27] @ ''muted'' @ [CHR 0x27] @ ''>Request canceled.</div>''
   \<and> \<not> isPending (ph\<lparr>content := cancelNotice, time := Some t3\<rparr>)
   \<and> (messages p = pre @ ph # post \<and> isPending ph \<and> (\<forall>x\<in>set post. \<not> isPending x) \<longrightarrow>
        messages (sendQuery_settle c AbortError t3 t4 (cancelRequest p))
        = pre @ ph\<lparr>content := cancelNotice, time := Some t3\<rparr> # post)
   \<and> ((\<forall>x\<in>set (messages p). \<not> isPending x) \<longrightarrow>
        messages (sendQuery_settle c AbortError t3 t4 (cancelRequest p))
        = messages p @ [\<lparr>role = ''assistant'', content = cancelNotice, time = Some t3\<rparr>])
   \<and> (q \<noteq> [] \<and> \<not> sending st \<and> p = fst (sendQuery_begin q t1 t2 st) \<longrightarrow>
        messages (sendQuery_settle c AbortError t3 t4 (cancelRequest p))
        = messages st @
          [\<lparr>role = ''user'', content = ''<div>'' @ escapeHtml (Some q) @ ''</div>'', time = Some t1\<rparr>,
           \<lparr>role = ''assistant'', content = cancelNotice, time = Some t3\<rparr>]
        \<and> sources (sendQuery_settle c AbortError t3 t4 (cancelRequest p)) = sources st)"
proof -
  have c1: "set (abortRef p) \<subseteq> set (aborted (cancelRequest p))
   \<and> abortRef (cancelRequest p) = []
   \<and> \<not> sending (cancelRequest p)
   \<and> sources (cancelRequest p) = sources p
   \<and> messages (cancelRequest p) = messages p"
    by (simp add: cancelRequest_def)
  have c2: "sources (sendQuery_settle c AbortError t3 t4 (cancelRequest p)) = sources p
   \<and> \<not> sending (sendQuery_settle c AbortError t3 t4 (cancelRequest p))
   \<and> abortRef (sendQuery_settle c AbortError t3 t4 (cancelRequest p)) = []"
    by (simp add: settle_abort cancelRequest_def)
  have n1: "cancelNotice
       = ''<div class='' @ [CHR 0x27] @ ''muted'' @ [CHR 0x27] @ ''>Request canceled.</div>''"
    by (rule cancelNotice_text)
  have n2: "\<not> isPending (ph\<lparr>content := cancelNotice, time := Some t3\<rparr>)"
    by (rule cancelNotice_not_pending)
  have msgs: "messages (sendQuery_settle c AbortError t3 t4 (cancelRequest p))
              = replaceLastAssistant cancelNotice t3 (messages p)"
    by (simp add: settle_abort cancelRequest_def)
  have c3: "messages p = pre @ ph # post \<and> isPending ph \<and> (\<forall>x\<in>set post. \<not> isPending x) \<longrightarrow>
        messages (sendQuery_settle c AbortError t3 t4 (cancelRequest p))
        = pre @ ph\<lparr>content := cancelNotice, time := Some t3\<rparr> # post"
    unfolding msgs using replaceLastAssistant_split [of ph post cancelNotice t3 pre] by auto
  have c3b: "(\<forall>x\<in>set (messages p). \<not> isPending x) \<longrightarrow>
        messages (sendQuery_settle c AbortError t3 t4 (cancelRequest p))
        = messages p @ [\<lparr>role = ''assistant'', content = cancelNotice, time = Some t3\<rparr>]"
    unfolding msgs using replaceLastAssistant_append [of "messages p" cancelNotice t3] by simp
  have c4: "q \<noteq> [] \<and> \<not> sending st \<and> p = fst (sendQuery_begin q t1 t2 st) \<longrightarrow>
        messages (sendQuery_settle c AbortError t3 t4 (cancelRequest p))
        = messages st @
          [\<lparr>role = ''user'', content = ''<div>'' @ escapeHtml (Some q) @ ''</div>'', time = Some t1\<rparr>,
           \<lparr>role = ''assistant'', content = cancelNotice, time = Some t3\<rparr>]
        \<and> sources (sendQuery_settle c AbortError t3 t4 (cancelRequest p)) = sources st"
  proof (intro impI)
    assume a: "q \<noteq> [] \<and> \<not> sending st \<and> p = fst (sendQuery_begin q t1 t2 st)"
    then have "replaceLastAssistant cancelNotice t3 (messages p)
        = messages st @
          [\<lparr>role = ''user'', content = ''<div>'' @ escapeHtml (Some q) @ ''</div>'', time = Some t1\<rparr>,
           \<lparr>role = ''assistant'', content = cancelNotice, time = Some t3\<rparr>]"
      using begin_then_replace [of q st cancelNotice t3 t1 t2] by simp
    moreover from a have "sources p = sources st" by (simp add: sendQuery_begin_run)
    ultimately show "messages (sendQuery_settle c AbortError t3 t4 (cancelRequest p))
        = messages st @
          [\<lparr>role = ''user'', content = ''<div>'' @ escapeHtml (Some q) @ ''</div>'', time = Some t1\<rparr>,
           \<lparr>role = ''assistant'', content = cancelNotice, time = Some t3\<rparr>]
        \<and> sources (sendQuery_settle c AbortError t3 t4 (cancelRequest p)) = sources st"
      using msgs c2 by simp
  qed
  from c1 c2 n1 n2 c3 c3b c4 show ?thesis by blast
qed

theorem cancel_pending_witness:
  "messages (sendQuery_settle 0 AbortError ''10:02'' ''10:02''
       (cancelRequest (fst (sendQuery_begin ''hi'' ''10:00'' ''10:01''
          (exampleIdle\<lparr>sources := [\<lparr>name = Some ''a.txt'', path = Some ''/d/a.txt'',
              size_bytes = Some 10, reason = None, reason_detail = None\<rparr>]\<rparr>)))))
   = [\<lparr>role = ''user'', content = ''<div>hi</div>'', time = Some ''10:00''\<rparr>,
      \<lparr>role = ''assistant'',
         content = ''<div class='' @ [CHR 0x27] @ ''muted'' @ [CHR 0x27] @ ''>Request canceled.</div>'',
         time = Some ''10:02''\<rparr>]
   \<and> sources (sendQuery_settle 0 AbortError ''10:02'' ''10:02''
       (cancelRequest (fst (sendQuery_begin ''hi'' ''10:00'' ''10:01''
          (exampleIdle\<lparr>sources := [\<lparr>name = Some ''a.txt'', path = Some ''/d/a.txt'',
              size_bytes = Some 10, reason = None, reason_detail = None\<rparr>]\<rparr>)))))
     = [\<lparr>name = Some ''a.txt'', path = Some ''/d/a.txt'',
              size_bytes = Some 10, reason = None, reason_detail = None\<rparr>]
   \<and> aborted (cancelRequest (fst (sendQuery_begin ''hi'' ''10:00'' ''10:01''
          (exampleIdle\<lparr>sources := [\<lparr>name = Some ''a.txt'', path = Some ''/d/a.txt'',
              size_bytes = Some 10, reason = None, reason_detail = None\<rparr>]\<rparr>)))) = [0]
   \<and> messages (sendQuery_settle 0 AbortError ''10:02'' ''10:02''
       (cancelRequest (exampleIdle\<lparr>messages :=
          [\<lparr>role = ''assistant'', content = placeholder, time = Some ''10:01''\<rparr>,
           \<lparr>role = ''assistant'', content = ''<div>note</div>'', time = Some ''10:01''\<rparr>]\<rparr>)))
     = [\<lparr>role = ''assistant'',
          content = ''<div class='' @ [CHR 0x27] @ ''muted'' @ [CHR 0x27] @ ''>Request canceled.</div>'',
          time = Some ''10:02''\<rparr>,
        \<lparr>role = ''assistant'', content = ''<div>note</div>'', time = Some ''10:01''\<rparr>]"
proof -
  let ?st = "exampleIdle\<lparr>sources := [\<lparr>name = Some ''a.txt'', path = Some ''/d/a.txt'',
              size_bytes = Some 10, reason = None, reason_detail = None\<rparr>]\<rparr>"
  let ?p = "fst (sendQuery_begin ''hi'' ''10:00'' ''10:01'' ?st)"
  let ?ph = "\<lparr>role = ''assistant'', content = placeholder, time = Some ''10:01''\<rparr>"
  let ?note = "\<lparr>role = ''assistant'', content = ''<div>note</div>'', time = Some ''10:01''\<rparr>"
  let ?r = "exampleIdle\<lparr>messages := [?ph, ?note]\<rparr>"
  have h: "''hi'' \<noteq> [] \<and> \<not> sending ?st \<and> ?p = fst (sendQuery_begin ''hi'' ''10:00'' ''10:01'' ?st)"
    by (simp add: exampleIdle_def)
  from cancel_pending [where p = ?p and c = 0 and ?t3.0 = "''10:02''" and ?t4.0 = "''10:02''"
      and pre = "[]" and ph = ?ph and post = "[]" and q = "''hi''" and st = ?st
      and ?t1.0 = "''10:00''" and ?t2.0 = "''10:01''"] h
  have "messages (sendQuery_settle 0 AbortError ''10:02'' ''10:02'' (cancelRequest ?p))
        = messages ?st @
          [\<lparr>role = ''user'', content = ''<div>'' @ escapeHtml (Some ''hi'') @ ''</div>'', time = Some ''10:00''\<rparr>,
           \<lparr>role = ''assistant'', content = cancelNotice, time = Some ''10:02''\<rparr>]"
    and "sources (sendQuery_settle 0 AbortError ''10:02'' ''10:02'' (cancelRequest ?p)) = sources ?st"
    and n: "cancelNotice
       = ''<div class='' @ [CHR 0x27] @ ''muted'' @ [CHR 0x27] @ ''>Request canceled.</div>''"
    by blast+
  moreover have "escapeHtml (Some ''hi'') = ''hi''"
    by (simp add: escapeHtml_def escapeChar_def)
  moreover have "aborted (cancelRequest ?p) = [0]"
    by (simp add: cancelRequest_def sendQuery_begin_run exampleIdle_def)
  moreover have split: "messages ?r = [] @ ?ph # [?note] \<and> isPending ?ph
        \<and> (\<forall>x\<in>set [?note]. \<not> isPending x)"
    by (simp add: isPending_def placeholder_def)
  from cancel_pending [where p = ?r and c = 0 and ?t3.0 = "''10:02''" and ?t4.0 = "''10:02''"
      and pre = "[]" and ph = ?ph and post = "[?note]" and q = "''hi''" and st = ?st
      and ?t1.0 = "''10:00''" and ?t2.0 = "''10:01''"] split
  have "messages (sendQuery_settle 0 AbortError ''10:02'' ''10:02'' (cancelRequest ?r))
        = [] @ ?ph\<lparr>content := cancelNotice, time := Some ''10:02''\<rparr> # [?note]"
    by blast
  ultimately show ?thesis by (simp add: exampleIdle_def)
qed

section \<open>The source panel\<close>

text \<open>
  Claim C7, as stated: a filter text found in the path of exactly one entry shows
  exactly one entry.  It fails for the two entries below: \<^verbatim>\<open>docs\<close> is in the path
  of the first only, but also in the reason detail of the second, and both are
  shown.
\<close>

theorem filter_path_counterexample:
  "js_includes ''/docs/a.txt'' ''docs''
   \<and> \<not> js_includes (toLowerCase ''/x/b.txt'') (toLowerCase ''docs'')
   \<and> visibleSources toLowerCase ''docs''
        [\<lparr>name = Some ''a.txt'', path = Some ''/docs/a.txt'', size_bytes = Some 10,
           reason = None, reason_detail = None\<rparr>,
         \<lparr>name = Some ''b.txt'', path = Some ''/x/b.txt'', size_bytes = Some 20,
           reason = None, reason_detail = Some ''cites docs''\<rparr>]
     = [\<lparr>name = Some ''a.txt'', path = Some ''/docs/a.txt'', size_bytes = Some 10,
           reason = None, reason_detail = None\<rparr>,
         \<lparr>name = Some ''b.txt'', path = Some ''/x/b.txt'', size_bytes = Some 20,
           reason = None, reason_detail = Some ''cites docs''\<rparr>]"
  by (simp add: visibleSources_def filterMatch_def toLowerCase_def toLowerUnit_def orEmpty_def)

text \<open>
  Claim C7, amended.  For every Source list, every filter text \<open>f\<close> and whatever
  \<^verbatim>\<open>toLowerCase\<close> does, the panel shows, in the order of the list, exactly the
  entries that match: \<open>f\<close> is empty, or the lower-cased \<open>f\<close> is a piece of the
  lower-cased name, path or reason detail.  An empty \<open>f\<close> shows the whole list.
  Where lower-casing works character by character, an entry matches exactly when
  one of the three fields has a window that agrees with \<open>f\<close> up to case.  In any
  case an entry matches when its path has a window that is equal to \<open>f\<close> once both
  are lower-cased and that is lower-cased in its place.  Hence a text that one
  entry matches and no other entry matches in any of the three fields shows that
  entry alone, a text that no entry matches in any of the three fields shows
  nothing, and clearing the filter shows the whole list in its order again.  On
  the strings of this model \<^verbatim>\<open>toLowerCase\<close> works character by character: it
  takes \<^verbatim>\<open>A\<close> to \<^verbatim>\<open>Z\<close> and U+00C0 to U+00DE, the sign U+00D7 apart, to their
  lower-case forms and keeps the rest, and the entries shown are exactly those
  with a window that agrees with \<open>f\<close> up to case.
\<close>

theorem visibleSources_filter:
  "visibleSources lower f srcs = filter (specMatch lower f) srcs
   \<and> visibleSources lower [] srcs = srcs
   \<and> ((\<forall>x. lower x = map lc x) \<longrightarrow>
        (specMatch lower f s \<longleftrightarrow>
           f = []
           \<or> occursIgnoringCase lc f (orEmpty (name s))
           \<or> occursIgnoringCase lc f (orEmpty (path s))
           \<or> occursIgnoringCase lc f (orEmpty (reason_detail s))))
   \<and> (path s = Some (b @ w @ a) \<and> lower w = lower f
        \<and> lower (b @ w @ a) = lower b @ lower w @ lower a
      \<longrightarrow> specMatch lower f s)
   \<and> (srcs = before @ s # after \<and> specMatch lower f s
        \<and> (\<forall>x\<in>set before \<union> set after. \<not> specMatch lower f x)
      \<longrightarrow> visibleSources lower f srcs = [s])
   \<and> ((\<forall>x\<in>set srcs. \<not> specMatch lower f x) \<longrightarrow> visibleSources lower f srcs = [])
   \<and> visibleSources toLowerCase f srcs
       = filter (\<lambda>s. f = []
                   \<or> occursIgnoringCase toLowerUnit f (orEmpty (name s))
                   \<or> occursIgnoringCase toLowerUnit f (orEmpty (path s))
                   \<or> occursIgnoringCase toLowerUnit f (orEmpty (reason_detail s))) srcs
   \<and> toLowerCase ''ABCDEFGHIJKLMNOPQRSTUVWXYZ'' = ''abcdefghijklmnopqrstuvwxyz''
   \<and> toLowerCase
         [CHR 0xC0, CHR 0xC1, CHR 0xC2, CHR 0xC3, CHR 0xC4, CHR 0xC5, CHR 0xC6, CHR
         0xC7, CHR 0xC8, CHR 0xC9, CHR 0xCA, CHR 0xCB, CHR 0xCC, CHR 0xCD, CHR 0xCE,
         CHR 0xCF, CHR 0xD0, CHR 0xD1, CHR 0xD2, CHR 0xD3, CHR 0xD4, CHR 0xD5, CHR
         0xD6, CHR 0xD7, CHR 0xD8, CHR 0xD9, CHR 0xDA, CHR 0xDB, CHR 0xDC, CHR 0xDD,
         CHR 0xDE]
       =
         [CHR 0xE0, CHR 0xE1, CHR 0xE2, CHR 0xE3, CHR 0xE4, CHR 0xE5, CHR 0xE6, CHR
         0xE7, CHR 0xE8, CHR 0xE9, CHR 0xEA, CHR 0xEB, CHR 0xEC, CHR 0xED, CHR 0xEE,
         CHR 0xEF, CHR 0xF0, CHR 0xF1, CHR 0xF2, CHR 0xF3, CHR 0xF4, CHR 0xF5, CHR
         0xF6, CHR 0xD7, CHR 0xF8, CHR 0xF9, CHR 0xFA, CHR 0xFB, CHR 0xFC, CHR 0xFD,
         CHR 0xFE]
   \<and> toLowerCase ''abcdefghijklmnopqrstuvwxyz0123456789 /._-''
       = ''abcdefghijklmnopqrstuvwxyz0123456789 /._-''"
proof -
  have fm: "filterMatch l g = specMatch l g" for l g
    by (rule ext) (rule filterMatch_spec)
  have v: "visibleSources lower f srcs = filter (specMatch lower f) srcs"
    by (simp add: visibleSources_def fm)
  have e: "visibleSources lower [] srcs = srcs"
    by (simp add: visibleSources_def filterMatch_def)
  have cw: "(\<forall>x. lower x = map lc x) \<longrightarrow>
        (specMatch lower f s \<longleftrightarrow>
           f = []
           \<or> occursIgnoringCase lc f (orEmpty (name s))
           \<or> occursIgnoringCase lc f (orEmpty (path s))
           \<or> occursIgnoringCase lc f (orEmpty (reason_detail s)))"
    using occursLowered_charwise [of lower lc f] by (simp add: specMatch_def)
  have win: "path s = Some (b @ w @ a) \<and> lower w = lower f
        \<and> lower (b @ w @ a) = lower b @ lower w @ lower a
      \<longrightarrow> specMatch lower f s"
    using occursLowered_window [of lower w f b a] by (auto simp: specMatch_def orEmpty_def)
  have one: "srcs = before @ s # after \<and> specMatch lower f s
        \<and> (\<forall>x\<in>set before \<union> set after. \<not> specMatch lower f x)
      \<longrightarrow> visibleSources lower f srcs = [s]"
    unfolding v using filter_single [of "specMatch lower f" s before after] by blast
  have none: "(\<forall>x\<in>set srcs. \<not> specMatch lower f x) \<longrightarrow> visibleSources lower f srcs = []"
    unfolding v by (simp add: filter_empty_conv)
  have "\<forall>x. toLowerCase x = map toLowerUnit x" by (simp add: toLowerCase_def)
  then have "specMatch toLowerCase f
             = (\<lambda>s. f = []
                   \<or> occursIgnoringCase toLowerUnit f (orEmpty (name s))
                   \<or> occursIgnoringCase toLowerUnit f (orEmpty (path s))
                   \<or> occursIgnoringCase toLowerUnit f (orEmpty (reason_detail s)))"
    using occursLowered_charwise [of toLowerCase toLowerUnit f]
    by (intro ext) (simp add: specMatch_def)
  then have inst: "visibleSources toLowerCase f srcs
       = filter (\<lambda>s. f = []
                   \<or> occursIgnoringCase toLowerUnit f (orEmpty (name s))
                   \<or> occursIgnoringCase toLowerUnit f (orEmpty (path s))
                   \<or> occursIgnoringCase toLowerUnit f (orEmpty (reason_detail s))) srcs"
    by (simp add: visibleSources_def fm)
  have t1: "toLowerCase ''ABCDEFGHIJKLMNOPQRSTUVWXYZ'' = ''abcdefghijklmnopqrstuvwxyz''"
    by (simp add: toLowerCase_def toLowerUnit_def)
  have t2: "toLowerCase
         [CHR 0xC0, CHR 0xC1, CHR 0xC2, CHR 0xC3, CHR 0xC4, CHR 0xC5, CHR 0xC6, CHR
         0xC7, CHR 0xC8, CHR 0xC9, CHR 0xCA, CHR 0xCB, CHR 0xCC, CHR 0xCD, CHR 0xCE,
         CHR 0xCF, CHR 0xD0, CHR 0xD1, CHR 0xD2, CHR 0xD3, CHR 0xD4, CHR 0xD5, CHR
         0xD6, CHR 0xD7, CHR 0xD8, CHR 0xD9, CHR 0xDA, CHR 0xDB, CHR 0xDC, CHR 0xDD,
         CHR 0xDE]
       =
         [CHR 0xE0, CHR 0xE1, CHR 0xE2, CHR 0xE3, CHR 0xE4, CHR 0xE5, CHR 0xE6, CHR
         0xE7, CHR 0xE8, CHR 0xE9, CHR 0xEA, CHR 0xEB, CHR 0xEC, CHR 0xED, CHR 0xEE,
         CHR 0xEF, CHR 0xF0, CHR 0xF1, CHR 0xF2, CHR 0xF3, CHR 0xF4, CHR 0xF5, CHR
         0xF6, CHR 0xD7, CHR 0xF8, CHR 0xF9, CHR 0xFA, CHR 0xFB, CHR 0xFC, CHR 0xFD,
         CHR 0xFE]"
    by (simp add: toLowerCase_def toLowerUnit_def)
  have t3: "toLowerCase ''abcdefghijklmnopqrstuvwxyz0123456789 /._-''
       = ''abcdefghijklmnopqrstuvwxyz0123456789 /._-''"
    by (simp add: toLowerCase_def toLowerUnit_def)
  from v e cw win one none inst t1 t2 t3 show ?thesis by blast
qed

theorem visibleSources_filter_witness:
  "visibleSources toLowerCase ''REPORT''
     [\<lparr>name = Some ''a.txt'', path = Some ''/d/a.txt'', size_bytes = Some 10,
        reason = None, reason_detail = None\<rparr>,
      \<lparr>name = None, path = Some ''/d/Report.pdf'', size_bytes = Some 20,
        reason = None, reason_detail = Some ''q3''\<rparr>,
      \<lparr>name = Some ''c.md'', path = None, size_bytes = None,
        reason = None, reason_detail = None\<rparr>]
   = [\<lparr>name = None, path = Some ''/d/Report.pdf'', size_bytes = Some 20,
        reason = None, reason_detail = Some ''q3''\<rparr>]
   \<and> visibleSources toLowerCase [CHR 0xE9, CHR ''t'', CHR 0xE9]
     [\<lparr>name = Some ''a.txt'', path = Some ''/d/a.txt'', size_bytes = Some 10,
        reason = None, reason_detail = None\<rparr>,
      \<lparr>name = Some ([CHR 0xC9, CHR ''t'', CHR 0xE9] @ ''.txt''), path = None, size_bytes = None,
        reason = None, reason_detail = None\<rparr>]
     = [\<lparr>name = Some ([CHR 0xC9, CHR ''t'', CHR 0xE9] @ ''.txt''), path = None, size_bytes = None,
        reason = None, reason_detail = None\<rparr>]
   \<and> visibleSources toLowerCase ''zip''
     [\<lparr>name = Some ''a.txt'', path = Some ''/d/a.txt'', size_bytes = Some 10,
        reason = None, reason_detail = None\<rparr>,
      \<lparr>name = Some ''c.md'', path = None, size_bytes = None,
        reason = None, reason_detail = None\<rparr>]
     = []
   \<and> visibleSources toLowerCase []
     [\<lparr>name = Some ''a.txt'', path = Some ''/d/a.txt'', size_bytes = Some 10,
        reason = None, reason_detail = None\<rparr>,
      \<lparr>name = Some ''c.md'', path = None, size_bytes = None,
        reason = None, reason_detail = None\<rparr>]
     = [\<lparr>name = Some ''a.txt'', path = Some ''/d/a.txt'', size_bytes = Some 10,
        reason = None, reason_detail = None\<rparr>,
      \<lparr>name = Some ''c.md'', path = None, size_bytes = None,
        reason = None, reason_detail = None\<rparr>]
   \<and> occursIgnoringCase toLowerUnit ''REPORT'' ''/d/Report.pdf''"
proof -
  let ?a = "\<lparr>name = Some ''a.txt'', path = Some ''/d/a.txt'', size_bytes = Some 10,
        reason = None, reason_detail = None\<rparr>"
  let ?b = "\<lparr>name = None, path = Some ''/d/Report.pdf'', size_bytes = Some 20,
        reason = None, reason_detail = Some ''q3''\<rparr>"
  let ?c = "\<lparr>name = Some ''c.md'', path = None, size_bytes = None :: nat option,
        reason = None, reason_detail = None\<rparr>"
  let ?e = "\<lparr>name = Some ([CHR 0xC9, CHR ''t'', CHR 0xE9] @ ''.txt''), path = None,
        size_bytes = None :: nat option, reason = None, reason_detail = None\<rparr>"
  let ?ete = "[CHR 0xE9, CHR ''t'', CHR 0xE9]"
  have cw: "\<forall>x. toLowerCase x = map toLowerUnit x" by (simp add: toLowerCase_def)
  have na: "\<not> specMatch toLowerCase ''REPORT'' ?a" and nc: "\<not> specMatch toLowerCase ''REPORT'' ?c"
    and za: "\<not> specMatch toLowerCase ''zip'' ?a" and zc: "\<not> specMatch toLowerCase ''zip'' ?c"
    and ea: "\<not> specMatch toLowerCase ?ete ?a" and ee: "specMatch toLowerCase ?ete ?e"
    unfolding filterMatch_spec [symmetric]
    by (simp_all add: filterMatch_def toLowerCase_def toLowerUnit_def orEmpty_def)
  have win: "path ?b = Some (''/d/'' @ ''Report'' @ ''.pdf'')
     \<and> toLowerCase ''Report'' = toLowerCase ''REPORT''
     \<and> toLowerCase (''/d/'' @ ''Report'' @ ''.pdf'')
        = toLowerCase ''/d/'' @ toLowerCase ''Report'' @ toLowerCase ''.pdf''"
    by (simp add: toLowerCase_def toLowerUnit_def)
  from visibleSources_filter [where lower = toLowerCase and f = "''REPORT''" and s = ?b
      and b = "''/d/''" and w = "''Report''" and a = "''.pdf''" and lc = toLowerUnit
      and srcs = "[?a, ?b, ?c]" and before = "[?a]" and after = "[?c]"] win cw
  have yb: "specMatch toLowerCase ''REPORT'' ?b"
    and iff: "specMatch toLowerCase ''REPORT'' ?b \<longleftrightarrow>
           ''REPORT'' = []
           \<or> occursIgnoringCase toLowerUnit ''REPORT'' (orEmpty (name ?b))
           \<or> occursIgnoringCase toLowerUnit ''REPORT'' (orEmpty (path ?b))
           \<or> occursIgnoringCase toLowerUnit ''REPORT'' (orEmpty (reason_detail ?b))"
    by blast+
  have "\<not> occursIgnoringCase toLowerUnit ''REPORT'' []"
    and "\<not> occursIgnoringCase toLowerUnit ''REPORT'' ''q3''"
    by (auto simp: occursIgnoringCase_def list_all2_Cons2 append_eq_Cons_conv Cons_eq_append_conv)
  with yb iff have five: "occursIgnoringCase toLowerUnit ''REPORT'' ''/d/Report.pdf''"
    by (simp add: orEmpty_def)
  have split: "[?a, ?b, ?c] = [?a] @ ?b # [?c]" by simp
  have others: "\<forall>x\<in>set [?a] \<union> set [?c]. \<not> specMatch toLowerCase ''REPORT'' x"
    using na nc by simp
  from visibleSources_filter [where lower = toLowerCase and f = "''REPORT''" and s = ?b
      and srcs = "[?a, ?b, ?c]" and before = "[?a]" and after = "[?c]"] split yb others
  have one: "visibleSources toLowerCase ''REPORT'' [?a, ?b, ?c] = [?b]" by blast
  have split2: "[?a, ?e] = [?a] @ ?e # []" by simp
  have others2: "\<forall>x\<in>set [?a] \<union> set []. \<not> specMatch toLowerCase ?ete x"
    using ea by simp
  from visibleSources_filter [where lower = toLowerCase and f = ?ete and s = ?e
      and srcs = "[?a, ?e]" and before = "[?a]" and after = "[]"] split2 ee others2
  have two: "visibleSources toLowerCase ?ete [?a, ?e] = [?e]" by blast
  have nobody: "\<forall>x\<in>set [?a, ?c]. \<not> specMatch toLowerCase ''zip'' x"
    using za zc by simp
  from visibleSources_filter [where lower = toLowerCase and f = "''zip''" and srcs = "[?a, ?c]"] nobody
  have three: "visibleSources toLowerCase ''zip'' [?a, ?c] = []" by blast
  from visibleSources_filter [where lower = toLowerCase and srcs = "[?a, ?c]"]
  have four: "visibleSources toLowerCase [] [?a, ?c] = [?a, ?c]" by blast
  from one two three four five show ?thesis by blast
qed

end
